theory Spec2Isabelle
  imports Complex_Main
begin

section \<open>The evacuation route planner (app/utils.py, app/engine.py)\<close>

text \<open>
  A shallow embedding of the routing engine: the haversine distance of
  \<^verbatim>\<open>app/utils.py\<close> and the class \<^verbatim>\<open>RoutePlanner\<close> of \<^verbatim>\<open>app/engine.py\<close>.

  Python floats are modelled by the real numbers: \<^verbatim>\<open>math.sin\<close>, \<^verbatim>\<open>math.cos\<close>,
  \<^verbatim>\<open>math.sqrt\<close> and \<^verbatim>\<open>math.radians\<close> are the real functions, and no rounding,
  overflow, infinity or NaN is modelled. The statements below are about this exact
  arithmetic, with one exception: \<^verbatim>\<open>math.sqrt\<close> raises on a negative argument, which
  exact arithmetic never gives it and double arithmetic does. Where that matters the
  double value of the intermediate result is written out.

  Two library calls are not code of the repository and are parameters of the model:
  shapely's \<^verbatim>\<open>intersects\<close> (a predicate on an edge geometry and a zone) and
  networkx's \<^verbatim>\<open>astar_path\<close> (a function of the graph, the two end nodes and the
  heuristic, that returns a node list or raises).
\<close>

subsection \<open>Geodesic distance (app/utils.py)\<close>

text \<open>The exceptions that the code of the two files can raise.\<close>

datatype py_error = AttributeError | ValueError

definition radians :: "real \<Rightarrow> real" where
  "radians x = x * pi / 180"

text \<open>\<^verbatim>\<open>math.atan2(y, x)\<close>: the angle of the point \<open>(x, y)\<close>, in \<open>(-pi, pi]\<close>.\<close>

definition atan2 :: "real \<Rightarrow> real \<Rightarrow> real" where
  "atan2 y x =
     (if 0 < x then arctan (y / x)
      else if x < 0 then (if 0 \<le> y then arctan (y / x) + pi else arctan (y / x) - pi)
      else if 0 < y then pi / 2
      else if y < 0 then - (pi / 2)
      else 0)"

text \<open>The local \<^verbatim>\<open>a\<close> of \<^verbatim>\<open>haversine_distance\<close>.\<close>

definition hav_a :: "real \<Rightarrow> real \<Rightarrow> real \<Rightarrow> real \<Rightarrow> real" where
  "hav_a lat1 lon1 lat2 lon2 =
     (let phi1 = radians lat1;
          phi2 = radians lat2;
          delta_phi = radians (lat2 - lat1);
          delta_lambda = radians (lon2 - lon1)
      in (sin (delta_phi / 2))\<^sup>2 + cos phi1 * cos phi2 * (sin (delta_lambda / 2))\<^sup>2)"

definition haversine_distance :: "real \<Rightarrow> real \<Rightarrow> real \<Rightarrow> real \<Rightarrow> real" where
  "haversine_distance lat1 lon1 lat2 lon2 =
     (let R = 6371000;
          a = hav_a lat1 lon1 lat2 lon2;
          c = 2 * atan2 (sqrt a) (sqrt (1 - a))
      in R * c)"



subsection \<open>The road graph (the \<^verbatim>\<open>networkx.Graph\<close> the planner owns)\<close>

text \<open>
  A node is the coordinate tuple \<open>(lon, lat)\<close> of the road data; node identity is
  equality of the tuple. The attribute dictionary of an edge always carries the four
  keys that \<^verbatim>\<open>_add_linestring_to_graph\<close> sets; \<^verbatim>\<open>geometry\<close> is the two-point
  \<^verbatim>\<open>LineString([start, end])\<close>, kept as its two end points.
\<close>

type_synonym vertex = "real \<times> real"

record edge_data =
  weight :: real
  geometry :: "vertex \<times> vertex"
  segment_id :: string
  is_flooded :: bool

text \<open>
  The graph keeps its nodes in insertion order (the order \<^verbatim>\<open>graph.nodes()\<close>
  enumerates) and one attribute dictionary for each unordered pair of adjacent nodes,
  under the pair that first created the edge.
\<close>

record road_graph =
  nodes :: "vertex list"
  edges :: "((vertex \<times> vertex) \<times> edge_data) list"

definition empty_graph :: road_graph where
  "empty_graph = \<lparr>nodes = [], edges = []\<rparr>"

definition same_edge :: "vertex \<Rightarrow> vertex \<Rightarrow> vertex \<times> vertex \<Rightarrow> bool" where
  "same_edge u v k = (k = (u, v) \<or> k = (v, u))"

definition add_node :: "vertex \<Rightarrow> vertex list \<Rightarrow> vertex list" where
  "add_node n ns = (if n \<in> set ns then ns else ns @ [n])"

text \<open>
  \<^verbatim>\<open>Graph.add_edge(u, v, **attr)\<close>: both nodes are added when absent; the attributes
  given replace those of an edge that already joins the two nodes, in either direction
  (all four keys are given at the only call site, so the whole dictionary is replaced).
\<close>

definition add_edge :: "road_graph \<Rightarrow> vertex \<Rightarrow> vertex \<Rightarrow> edge_data \<Rightarrow> road_graph" where
  "add_edge g u v d =
     \<lparr>nodes = add_node v (add_node u (nodes g)),
      edges = (if list_ex (\<lambda>e. same_edge u v (fst e)) (edges g)
               then map (\<lambda>e. if same_edge u v (fst e) then (fst e, d) else e) (edges g)
               else edges g @ [((u, v), d)])\<rparr>"

text \<open>\<^verbatim>\<open>Graph.get_edge_data(u, v)\<close>: the attributes of the edge, \<open>None\<close> when there is none.\<close>

definition get_edge_data :: "road_graph \<Rightarrow> vertex \<Rightarrow> vertex \<Rightarrow> edge_data option" where
  "get_edge_data g u v = map_option snd (find (\<lambda>e. same_edge u v (fst e)) (edges g))"

subsection \<open>Road data and the planner state\<close>

text \<open>
  A row of the GeoDataFrame is its index label and its geometry. Geometries other than
  lines are skipped by \<^verbatim>\<open>build_graph\<close>; a row without geometry (\<^verbatim>\<open>None\<close>) makes
  \<^verbatim>\<open>geom.geom_type\<close> raise.
\<close>

datatype geom =
    LineString "vertex list"
  | MultiLineString "vertex list list"
  | OtherGeometry
  | MissingGeometry

datatype 'a outcome = Returned 'a | Raised py_error

record 'z planner =
  gdf :: "(nat \<times> geom) list option"
  graph :: "road_graph option"
  flood_zones :: "'z list"

text \<open>\<^verbatim>\<open>RoutePlanner.__init__\<close>.\<close>

definition init_planner :: "'z planner" where
  "init_planner = \<lparr>gdf = None, graph = None, flood_zones = []\<rparr>"

text \<open>
  \<^verbatim>\<open>load_road_network\<close>: the outcome of reading the file is an argument, \<open>None\<close> when
  \<^verbatim>\<open>gpd.read_file\<close> raises.
\<close>

definition load_road_network ::
  "'z planner \<Rightarrow> (nat \<times> geom) list option \<Rightarrow> bool \<times> 'z planner" where
  "load_road_network p file =
     (case file of Some rows \<Rightarrow> (True, p\<lparr>gdf := Some rows\<rparr>) | None \<Rightarrow> (False, p))"

subsection \<open>Building the graph\<close>

text \<open>Python's \<^verbatim>\<open>str\<close> of a natural number, as the f-string formats the two indices.\<close>

definition digit_char :: "nat \<Rightarrow> char" where
  "digit_char d = ''0123456789'' ! d"

function str_nat :: "nat \<Rightarrow> string" where
  "str_nat n = (if n < 10 then [digit_char n] else str_nat (n div 10) @ [digit_char (n mod 10)])"
  by pat_completeness auto
termination
  by (relation "measure (\<lambda>n. n)") auto

text \<open>The attributes \<^verbatim>\<open>_add_linestring_to_graph\<close> gives the edge of index \<open>i\<close>.\<close>

definition segment_attrs :: "vertex \<Rightarrow> vertex \<Rightarrow> nat \<Rightarrow> nat \<Rightarrow> edge_data" where
  "segment_attrs start end' feature_id i =
     \<lparr>weight = haversine_distance (snd start) (fst start) (snd end') (fst end'),
      geometry = (start, end'),
      segment_id = str_nat feature_id @ ''_'' @ str_nat i,
      is_flooded = False\<rparr>"

text \<open>
  The calls of \<^verbatim>\<open>add_edge\<close> that the loop of \<^verbatim>\<open>_add_linestring_to_graph\<close> makes, in
  order: one for each \<open>i\<close> of \<^verbatim>\<open>range(len(coords) - 1)\<close>.
\<close>

definition linestring_segments :: "vertex list \<Rightarrow> nat \<Rightarrow> (vertex \<times> vertex \<times> edge_data) list" where
  "linestring_segments coords feature_id =
     map (\<lambda>i. (coords ! i, coords ! (i + 1),
                segment_attrs (coords ! i) (coords ! (i + 1)) feature_id i))
       [0..<length coords - 1]"

definition insert_segment :: "road_graph \<Rightarrow> vertex \<times> vertex \<times> edge_data \<Rightarrow> road_graph" where
  "insert_segment g s = (case s of (u, v, d) \<Rightarrow> add_edge g u v d)"

text \<open>\<^verbatim>\<open>_add_linestring_to_graph\<close> returns the number of edges added, with the graph updated.\<close>

definition add_linestring_to_graph :: "road_graph \<Rightarrow> vertex list \<Rightarrow> nat \<Rightarrow> road_graph \<times> nat" where
  "add_linestring_to_graph g coords feature_id =
     (foldl insert_segment g (linestring_segments coords feature_id),
      length (linestring_segments coords feature_id))"

text \<open>The inner loop of \<^verbatim>\<open>build_graph\<close> over the parts of a MultiLineString.\<close>

fun add_parts :: "road_graph \<Rightarrow> vertex list list \<Rightarrow> nat \<Rightarrow> road_graph \<times> nat" where
  "add_parts g [] idx = (g, 0)"
| "add_parts g (line # lines) idx =
     (case add_linestring_to_graph g line idx of
        (g', a) \<Rightarrow> (case add_parts g' lines idx of (g'', b) \<Rightarrow> (g'', a + b)))"

text \<open>
  The loop of \<^verbatim>\<open>build_graph\<close> over the rows: the graph and the edge count so far, and
  the exception that stopped the loop, if any.
\<close>

fun build_rows ::
  "road_graph \<Rightarrow> nat \<Rightarrow> (nat \<times> geom) list \<Rightarrow> (road_graph \<times> nat) \<times> py_error option" where
  "build_rows g edge_count [] = ((g, edge_count), None)"
| "build_rows g edge_count ((idx, geom) # rows) =
     (case geom of
        LineString coords \<Rightarrow>
          (case add_linestring_to_graph g coords idx of
             (g', a) \<Rightarrow> build_rows g' (edge_count + a) rows)
      | MultiLineString parts \<Rightarrow>
          (case add_parts g parts idx of
             (g', a) \<Rightarrow> build_rows g' (edge_count + a) rows)
      | OtherGeometry \<Rightarrow> build_rows g edge_count rows
      | MissingGeometry \<Rightarrow> ((g, edge_count), Some AttributeError))"

definition build_graph :: "'z planner \<Rightarrow> bool outcome \<times> 'z planner" where
  "build_graph p =
     (case gdf p of
        None \<Rightarrow> (Returned False, p)
      | Some rows \<Rightarrow>
          (case build_rows empty_graph 0 rows of
             ((g, edge_count), None) \<Rightarrow> (Returned True, p\<lparr>graph := Some g\<rparr>)
           | ((g, edge_count), Some e) \<Rightarrow> (Raised e, p\<lparr>graph := Some g\<rparr>)))"

subsection \<open>The hazard overlay\<close>

text \<open>
  The loop over the zones for one edge: the first zone that intersects the geometry
  sets the flag, multiplies the weight by 100 and ends the loop (\<^verbatim>\<open>break\<close>).
\<close>

fun mark_edge :: "(vertex \<times> vertex \<Rightarrow> 'z \<Rightarrow> bool) \<Rightarrow> edge_data \<Rightarrow> 'z list \<Rightarrow> edge_data" where
  "mark_edge intersects d [] = d"
| "mark_edge intersects d (flood_zone # zones) =
     (if intersects (geometry d) flood_zone
      then d\<lparr>is_flooded := True, weight := weight d * 100\<rparr>
      else mark_edge intersects d zones)"

definition mark_graph :: "(vertex \<times> vertex \<Rightarrow> 'z \<Rightarrow> bool) \<Rightarrow> 'z list \<Rightarrow> road_graph \<Rightarrow> road_graph" where
  "mark_graph intersects zones g =
     g\<lparr>edges := map (\<lambda>e. (fst e, mark_edge intersects (snd e) zones)) (edges g)\<rparr>"

text \<open>
  \<^verbatim>\<open>_mark_flooded_edges\<close>: nothing happens with no zones; with zones and no graph,
  \<^verbatim>\<open>self.graph.edges\<close> raises.
\<close>

definition mark_flooded_edges ::
  "(vertex \<times> vertex \<Rightarrow> 'z \<Rightarrow> bool) \<Rightarrow> 'z planner \<Rightarrow> unit outcome \<times> 'z planner" where
  "mark_flooded_edges intersects p =
     (if flood_zones p = [] then (Returned (), p)
      else (case graph p of
              None \<Rightarrow> (Raised AttributeError, p)
            | Some g \<Rightarrow> (Returned (), p\<lparr>graph := Some (mark_graph intersects (flood_zones p) g)\<rparr>)))"

definition set_flood_zones ::
  "(vertex \<times> vertex \<Rightarrow> 'z \<Rightarrow> bool) \<Rightarrow> 'z planner \<Rightarrow> 'z list \<Rightarrow> unit outcome \<times> 'z planner" where
  "set_flood_zones intersects p zones = mark_flooded_edges intersects (p\<lparr>flood_zones := zones\<rparr>)"

subsection \<open>Locating the nearest node\<close>

text \<open>
  The loop of \<^verbatim>\<open>_find_nearest_node\<close>; the state is \<^verbatim>\<open>(min_distance, nearest_node)\<close>,
  where \<open>None\<close> stands for the initial \<^verbatim>\<open>float('inf')\<close> and for the initial \<^verbatim>\<open>None\<close>.
\<close>

fun nearest_loop ::
  "real \<Rightarrow> real \<Rightarrow> vertex list \<Rightarrow> real option \<times> vertex option \<Rightarrow> real option \<times> vertex option" where
  "nearest_loop lat lon [] st = st"
| "nearest_loop lat lon (node # rest) st =
     (let node_lon = fst node;
          node_lat = snd node;
          distance = haversine_distance lat lon node_lat node_lon
      in if (case fst st of None \<Rightarrow> True | Some min_distance \<Rightarrow> distance < min_distance)
         then nearest_loop lat lon rest (Some distance, Some node)
         else nearest_loop lat lon rest st)"

definition find_nearest_node :: "road_graph \<Rightarrow> real \<Rightarrow> real \<Rightarrow> vertex option" where
  "find_nearest_node g lat lon = snd (nearest_loop lat lon (nodes g) (None, None))"

text \<open>
  The same loop over a distance utility that can raise: the exception leaves the loop
  and the method.
\<close>

fun nearest_loop_raising ::
  "(real \<Rightarrow> real \<Rightarrow> real \<Rightarrow> real \<Rightarrow> py_error + real) \<Rightarrow> real \<Rightarrow> real \<Rightarrow> vertex list
     \<Rightarrow> real option \<times> vertex option \<Rightarrow> py_error + real option \<times> vertex option" where
  "nearest_loop_raising distance_fn lat lon [] st = Inr st"
| "nearest_loop_raising distance_fn lat lon (node # rest) st =
     (let node_lon = fst node;
          node_lat = snd node
      in case distance_fn lat lon node_lat node_lon of
           Inl e \<Rightarrow> Inl e
         | Inr distance \<Rightarrow>
             if (case fst st of None \<Rightarrow> True | Some min_distance \<Rightarrow> distance < min_distance)
             then nearest_loop_raising distance_fn lat lon rest (Some distance, Some node)
             else nearest_loop_raising distance_fn lat lon rest st)"


definition heuristic :: "vertex \<Rightarrow> vertex \<Rightarrow> real" where
  "heuristic node1 node2 =
     haversine_distance (snd node1) (fst node1) (snd node2) (fst node2)"

subsection \<open>Route metrics\<close>

text \<open>
  \<^verbatim>\<open>_calculate_path_length\<close>: the weight of each traversed edge, divided by 100 when the
  edge is flagged; a pair of consecutive nodes without an edge adds nothing.
\<close>

fun path_length_loop :: "road_graph \<Rightarrow> real \<Rightarrow> vertex list \<Rightarrow> real" where
  "path_length_loop g total' (a # b # rest) =
     (case get_edge_data g a b of
        None \<Rightarrow> path_length_loop g total' (b # rest)
      | Some edge_data \<Rightarrow>
          path_length_loop g
            (total' + (if is_flooded edge_data then weight edge_data / 100 else weight edge_data))
            (b # rest))"
| "path_length_loop g total' path = total'"

definition calculate_path_length :: "road_graph \<Rightarrow> vertex list \<Rightarrow> real" where
  "calculate_path_length g path = path_length_loop g 0 path"

text \<open>\<^verbatim>\<open>_count_flooded_segments\<close>.\<close>

fun flooded_loop :: "road_graph \<Rightarrow> nat \<Rightarrow> vertex list \<Rightarrow> nat" where
  "flooded_loop g count (a # b # rest) =
     (case get_edge_data g a b of
        None \<Rightarrow> flooded_loop g count (b # rest)
      | Some edge_data \<Rightarrow>
          flooded_loop g (if is_flooded edge_data then count + 1 else count) (b # rest))"
| "flooded_loop g count path = count"

definition count_flooded_segments :: "road_graph \<Rightarrow> vertex list \<Rightarrow> nat" where
  "count_flooded_segments g path = flooded_loop g 0 path"

subsection \<open>Finding a route\<close>

text \<open>
  \<^verbatim>\<open>round(x, 2)\<close> on exact arithmetic: to the nearest multiple of 1/100, a tie to the
  even one.
\<close>

definition round_half_even :: "real \<Rightarrow> int" where
  "round_half_even x =
     (let f = \<lfloor>x\<rfloor>; r = x - of_int f
      in if r < 1 / 2 then f else if 1 / 2 < r then f + 1 else if even f then f else f + 1)"

definition round2 :: "real \<Rightarrow> real" where
  "round2 x = of_int (round_half_even (x * 100)) / 100"

text \<open>What \<^verbatim>\<open>astar_path\<close> raises: \<^verbatim>\<open>NetworkXNoPath\<close>, or any other exception.\<close>

datatype nx_error = NetworkXNoPath | OtherException

type_synonym astar = "road_graph \<Rightarrow> vertex \<Rightarrow> vertex \<Rightarrow> (vertex \<Rightarrow> vertex \<Rightarrow> real) \<Rightarrow> nx_error + vertex list"

text \<open>The dictionary of a found route: the feature's geometry and properties, and the metadata.\<close>

record route_dict =
  coordinates :: "vertex list"
  distance_meters :: real
  nodes_count :: nat
  flooded_segments :: nat
  meta_start :: "real \<times> real"
  meta_end :: "real \<times> real"
  meta_distance_meters :: real
  status :: string

text \<open>
  The value \<^verbatim>\<open>find_route\<close> returns: \<^verbatim>\<open>None\<close>, the dictionary of a route, or the
  dictionary \<^verbatim>\<open>{'metadata': {'status': ..., 'message': ...}}\<close>.
\<close>

datatype route_result =
    PyNone
  | Route route_dict
  | Failure string string

text \<open>The message of the failure dictionary, in UTF-8.\<close>

definition no_route_message :: string where
  "no_route_message =
     ''Nie znaleziono trasy mi'' @ [CHR 0xC4, CHR 0x99] @ ''dzy punktami''"

definition find_route ::
  "astar \<Rightarrow> 'z planner \<Rightarrow> real \<Rightarrow> real \<Rightarrow> real \<Rightarrow> real \<Rightarrow> route_result" where
  "find_route astar_path p start_lat start_lon end_lat end_lon =
     (case graph p of
        None \<Rightarrow> PyNone
      | Some g \<Rightarrow>
          (case (find_nearest_node g start_lat start_lon, find_nearest_node g end_lat end_lon) of
             (Some start_node, Some end_node) \<Rightarrow>
               (case astar_path g start_node end_node heuristic of
                  Inr path \<Rightarrow>
                    (let route_coords = map (\<lambda>n. (fst n, snd n)) path;
                         total_distance = calculate_path_length g path;
                         flooded = count_flooded_segments g path
                     in Route \<lparr>coordinates = route_coords,
                               distance_meters = round2 total_distance,
                               nodes_count = length path,
                               flooded_segments = flooded,
                               meta_start = (start_lat, start_lon),
                               meta_end = (end_lat, end_lon),
                               meta_distance_meters = round2 total_distance,
                               status = ''success''\<rparr>)
                | Inl NetworkXNoPath \<Rightarrow> Failure ''error'' no_route_message
                | Inl OtherException \<Rightarrow> PyNone)
           | _ \<Rightarrow> PyNone))"

text \<open>The status a caller reads from the result, when it has one.\<close>

fun result_status :: "route_result \<Rightarrow> string option" where
  "result_status PyNone = None"
| "result_status (Route r) = Some (status r)"
| "result_status (Failure s m) = Some s"

section \<open>Notions of the specification\<close>

text \<open>
  The code keeps no base distance: an edge has the one attribute \<^verbatim>\<open>weight\<close>. The base
  distance of an edge is the geodesic distance of the two end points of its geometry,
  which is the weight \<^verbatim>\<open>_add_linestring_to_graph\<close> gives it.
\<close>

definition base_distance :: "edge_data \<Rightarrow> real" where
  "base_distance d =
     haversine_distance (snd (fst (geometry d))) (fst (fst (geometry d)))
       (snd (snd (geometry d))) (fst (snd (geometry d)))"

text \<open>An edge as the builder leaves it, and the weighting invariant of the specification.\<close>

definition fresh_edge :: "edge_data \<Rightarrow> bool" where
  "fresh_edge d = (weight d = base_distance d \<and> \<not> is_flooded d)"

definition consistent_edge :: "edge_data \<Rightarrow> bool" where
  "consistent_edge d =
     (weight d = (if is_flooded d then base_distance d * 100 else base_distance d))"

definition fresh_graph :: "road_graph \<Rightarrow> bool" where
  "fresh_graph g = list_all (\<lambda>e. fresh_edge (snd e)) (edges g)"

definition weights_consistent :: "road_graph \<Rightarrow> bool" where
  "weights_consistent g = list_all (\<lambda>e. consistent_edge (snd e)) (edges g)"

text \<open>The edges a node path traverses: one for each pair of consecutive nodes that has an edge.\<close>

fun traversed :: "road_graph \<Rightarrow> vertex list \<Rightarrow> edge_data list" where
  "traversed g (a # b # rest) =
     (case get_edge_data g a b of
        None \<Rightarrow> traversed g (b # rest)
      | Some d \<Rightarrow> d # traversed g (b # rest))"
| "traversed g path = []"

text \<open>
  What \<^verbatim>\<open>_calculate_path_length\<close> adds for one traversed edge, and the two metrics of
  the specification: the sum of the base distances and the number of flagged edges
  along a path.
\<close>

definition effective_weight :: "edge_data \<Rightarrow> real" where
  "effective_weight d = (if is_flooded d then weight d / 100 else weight d)"

definition true_distance :: "road_graph \<Rightarrow> vertex list \<Rightarrow> real" where
  "true_distance g path = sum_list (map base_distance (traversed g path))"

definition hazard_count :: "road_graph \<Rightarrow> vertex list \<Rightarrow> nat" where
  "hazard_count g path = length (filter is_flooded (traversed g path))"

text \<open>Two nodes are connected when a chain of edges joins them.\<close>

definition has_path :: "road_graph \<Rightarrow> vertex \<Rightarrow> vertex \<Rightarrow> bool" where
  "has_path g s t = ((s, t) \<in> {(u, v). get_edge_data g u v \<noteq> None}\<^sup>*)"

text \<open>The distance the locator compares, from the query point to a node.\<close>

definition query_distance :: "real \<Rightarrow> real \<Rightarrow> vertex \<Rightarrow> real" where
  "query_distance lat lon node = haversine_distance lat lon (snd node) (fst node)"

section \<open>Concrete data\<close>

subsection \<open>Instances of the two library parameters\<close>

text \<open>
  A zone that is a rectangle with sides parallel to the axes, \<open>Box min_lon min_lat
  max_lon max_lat\<close>, and the intersection of a segment with it: the segment
  \<open>p + t * (q - p)\<close>, \<open>0 \<le> t \<le> 1\<close>, meets the closed rectangle when the two intervals
  of \<open>t\<close> that keep each coordinate within its bounds overlap.
\<close>

datatype box = Box real real real real

definition slab :: "real \<Rightarrow> real \<Rightarrow> real \<Rightarrow> real \<Rightarrow> (real \<times> real) option" where
  "slab p d lo hi =
     (if d = 0 then (if lo \<le> p \<and> p \<le> hi then Some (0, 1) else None)
      else Some (max 0 (min ((lo - p) / d) ((hi - p) / d)),
                 min 1 (max ((lo - p) / d) ((hi - p) / d))))"

fun box_intersects :: "vertex \<times> vertex \<Rightarrow> box \<Rightarrow> bool" where
  "box_intersects (p, q) (Box min_lon min_lat max_lon max_lat) =
     (case (slab (fst p) (fst q - fst p) min_lon max_lon,
            slab (snd p) (snd q - snd p) min_lat max_lat) of
        (Some (a, b), Some (c, d)) \<Rightarrow> max a c \<le> min b d
      | _ \<Rightarrow> False)"

text \<open>
  A search that returns the first simple path a depth-first walk finds and raises
  \<^verbatim>\<open>NetworkXNoPath\<close> when there is none. It is applied below to graphs in which two
  nodes are joined by at most one simple path, where it returns what \<^verbatim>\<open>astar_path\<close>
  returns.
\<close>

definition neighbors :: "road_graph \<Rightarrow> vertex \<Rightarrow> vertex list" where
  "neighbors g u =
     concat (map (\<lambda>e. if fst (fst e) = u then [snd (fst e)]
                       else if snd (fst e) = u then [fst (fst e)] else []) (edges g))"

fun first_some :: "'a option list \<Rightarrow> 'a option" where
  "first_some [] = None"
| "first_some (None # rs) = first_some rs"
| "first_some (Some r # rs) = Some r"

fun walk :: "nat \<Rightarrow> road_graph \<Rightarrow> vertex \<Rightarrow> vertex list \<Rightarrow> vertex \<Rightarrow> vertex list option" where
  "walk 0 g target seen u = None"
| "walk (Suc n) g target seen u =
     (if u = target then Some [u]
      else map_option ((#) u)
             (first_some (map (walk n g target (u # seen))
                (filter (\<lambda>v. v \<notin> set (u # seen)) (neighbors g u)))))"

definition path_search :: astar where
  "path_search g source target h =
     (case walk (length (nodes g)) g target [] source of
        Some path \<Rightarrow> Inr path
      | None \<Rightarrow> Inl NetworkXNoPath)"



subsection \<open>Road networks\<close>

text \<open>The network of \<^verbatim>\<open>tests/test_engine.py\<close>: the direct road A-B and the detour A-C-B.\<close>

definition test_rows :: "(nat \<times> geom) list" where
  "test_rows =
     [(0, LineString [(16.90, 52.40), (16.92, 52.40)]),
      (1, LineString [(16.90, 52.40), (16.91, 52.41)]),
      (2, LineString [(16.91, 52.41), (16.92, 52.40)])]"

text \<open>The flood polygon of the test, over the direct road only.\<close>

definition flood_poly :: box where
  "flood_poly = Box 16.905 52.399 16.915 52.401"

text \<open>A zone over the node C and the two detour roads, away from the direct road.\<close>

definition detour_poly :: box where
  "detour_poly = Box 16.909 52.409 16.911 52.411"

definition built :: "(nat \<times> geom) list \<Rightarrow> box planner" where
  "built rows = snd (build_graph (snd (load_road_network init_planner (Some rows))))"

definition overlaid :: "box planner \<Rightarrow> box list \<Rightarrow> box planner" where
  "overlaid p zones = snd (set_flood_zones box_intersects p zones)"

definition edge_of :: "'z planner \<Rightarrow> vertex \<Rightarrow> vertex \<Rightarrow> edge_data option" where
  "edge_of p u v = (case graph p of None \<Rightarrow> None | Some g \<Rightarrow> get_edge_data g u v)"

definition graph_of :: "'z planner \<Rightarrow> road_graph" where
  "graph_of p = (case graph p of None \<Rightarrow> empty_graph | Some g \<Rightarrow> g)"

text \<open>
  Roads on the meridian of longitude 0: one road from latitude 0 to latitude 1, and a
  second, separate one from latitude 5 to latitude 6.
\<close>

definition meridian_rows :: "(nat \<times> geom) list" where
  "meridian_rows = [(0, LineString [(0, 0), (0, 1)]), (1, LineString [(0, 5), (0, 6)])]"

text \<open>A zone across the first of the two roads, between the latitudes 0.4 and 0.6.\<close>

definition road_zone :: box where
  "road_zone = Box (-1) 0.4 1 0.6"

text \<open>A road of about one millimetre on the same meridian.\<close>

definition tiny_rows :: "(nat \<times> geom) list" where
  "tiny_rows = [(0, LineString [(0, 0), (0, 0.00000001)])]"

text \<open>One feature of two separate parts.\<close>

definition multi_rows :: "(nat \<times> geom) list" where
  "multi_rows = [(7, MultiLineString [[(0, 0), (0, 1)], [(0, 5), (0, 6)]])]"

section \<open>Properties\<close>

subsection \<open>Bounds on \<open>pi\<close>\<close>

lemma cos_lower: "1 - x\<^sup>2 / 2 \<le> cos (x::real)"
proof -
  have "cos x = 1 - 2 * (sin (x / 2))\<^sup>2"
    using cos_double_sin [of "x / 2"] by simp
  moreover have "(sin (x / 2))\<^sup>2 \<le> (x / 2)\<^sup>2"
    using abs_sin_x_le_abs_x [of "x / 2"] by (metis abs_le_square_iff)
  ultimately show ?thesis by (simp add: power2_eq_square)
qed

lemma sin_lower:
  assumes "0 \<le> (x::real)"
  shows "x - x ^ 3 / 6 \<le> sin x"
proof -
  let ?f = "\<lambda>t::real. sin t - t + t ^ 3 / 6"
  have "?f 0 \<le> ?f x"
  proof (rule DERIV_nonneg_imp_nondecreasing [OF assms])
    fix t :: real
    have "(?f has_real_derivative (cos t - 1 + t\<^sup>2 / 2)) (at t)"
      by (auto intro!: derivative_eq_intros simp: power2_eq_square)
    moreover have "0 \<le> cos t - 1 + t\<^sup>2 / 2"
      using cos_lower [of t] by simp
    ultimately show "\<exists>y. (?f has_real_derivative y) (at t) \<and> 0 \<le> y" by blast
  qed
  then show ?thesis by simp
qed

lemma pi_lower: "3105 / 1000 < pi"
proof -
  let ?x = "pi / 6"
  have s3: "sqrt 3 \<le> 17321 / 10000"
    by (rule real_le_lsqrt) (simp_all add: power2_eq_square)
  have "1 - ?x\<^sup>2 / 2 \<le> sqrt 3 / 2"
    using cos_lower [of ?x] by (simp add: cos_30)
  with s3 have "2679 / 10000 \<le> ?x\<^sup>2" by simp
  moreover have "(5175 / 10000 :: real)\<^sup>2 < 2679 / 10000" by (simp add: power2_eq_square)
  ultimately have "(5175 / 10000 :: real)\<^sup>2 < ?x\<^sup>2" by linarith
  then have "5175 / 10000 < ?x"
    by (rule power2_less_imp_less) simp
  then show ?thesis by simp
qed

lemma pi_upper: "pi < 3167 / 1000"
proof -
  let ?x = "pi / 6"
  have x0: "0 \<le> ?x" by simp
  have b0: "?x \<le> 2 / 3" using pi_less_4 by simp
  have le: "?x \<le> 1 / 2 + ?x ^ 3 / 6"
    using sin_lower [OF x0] by (simp add: sin_30)
  have "?x ^ 3 \<le> (2 / 3) ^ 3" by (rule power_mono [OF b0 x0])
  with le have b1: "?x \<le> 89 / 162" by (simp add: power3_eq_cube)
  have "?x ^ 3 \<le> (89 / 162) ^ 3" by (rule power_mono [OF b1 x0])
  with le have "?x \<le> 1 / 2 + (89 / 162) ^ 3 / 6" by linarith
  also have "\<dots> < 5277 / 10000" by (simp add: power3_eq_cube)
  finally show ?thesis by simp
qed

subsection \<open>The haversine distance\<close>

lemma radians_minus: "radians (- x) = - radians x"
  by (simp add: radians_def)

lemma haversine_self: "haversine_distance lat lon lat lon = 0"
  by (simp add: haversine_distance_def hav_a_def radians_def atan2_def)

lemma hav_a_sym: "hav_a lat1 lon1 lat2 lon2 = hav_a lat2 lon2 lat1 lon1"
proof -
  have "sin (radians (lat2 - lat1) / 2) = - sin (radians (lat1 - lat2) / 2)"
    by (metis radians_def minus_diff_eq sin_minus minus_divide_left mult_minus_left)
  moreover have "sin (radians (lon2 - lon1) / 2) = - sin (radians (lon1 - lon2) / 2)"
    by (metis radians_def minus_diff_eq sin_minus minus_divide_left mult_minus_left)
  ultimately show ?thesis by (simp add: hav_a_def Let_def mult.commute)
qed

lemma haversine_sym:
  "haversine_distance lat1 lon1 lat2 lon2 = haversine_distance lat2 lon2 lat1 lon1"
  by (simp add: haversine_distance_def hav_a_sym [of lat1 lon1 lat2 lon2])

lemma hav_a_meridian: "hav_a lat1 lon lat2 lon = (sin (radians (lat2 - lat1) / 2))\<^sup>2"
  by (simp add: hav_a_def radians_def)

text \<open>On one meridian the distance is the arc length \<open>R * \<bar>lat2 - lat1\<bar>\<close> (in radians).\<close>

lemma haversine_meridian:
  assumes "\<bar>lat2 - lat1\<bar> < 180"
  shows "haversine_distance lat1 lon lat2 lon = 6371000 * (\<bar>lat2 - lat1\<bar> * pi / 180)"
proof -
  define x where "x = radians \<bar>lat2 - lat1\<bar> / 2"
  have x0: "0 \<le> x" and x1: "x < pi / 2"
    using assms by (simp_all add: x_def radians_def)
  have sq: "(sin (radians (lat2 - lat1) / 2))\<^sup>2 = (sin x)\<^sup>2"
  proof (cases "0 \<le> lat2 - lat1")
    case True
    then show ?thesis by (simp add: x_def)
  next
    case False
    then have "\<bar>lat2 - lat1\<bar> = - (lat2 - lat1)" by simp
    then have "x = radians (- (lat2 - lat1)) / 2" by (simp only: x_def)
    then have "x = - (radians (lat2 - lat1) / 2)"
      by (simp only: radians_minus minus_divide_left)
    then show ?thesis by simp
  qed
  have a: "hav_a lat1 lon lat2 lon = (sin x)\<^sup>2"
    by (simp add: hav_a_meridian sq)
  have s: "0 \<le> sin x" using x0 x1 by (intro sin_ge_zero) simp_all
  have c: "0 < cos x" using x0 x1 by (intro cos_gt_zero_pi) simp_all
  have "1 - (sin x)\<^sup>2 = (cos x)\<^sup>2" by (simp add: cos_squared_eq)
  then have "atan2 (sqrt (hav_a lat1 lon lat2 lon)) (sqrt (1 - hav_a lat1 lon lat2 lon))
      = arctan (sin x / cos x)"
    using s c by (simp add: a atan2_def)
  also have "\<dots> = x"
    using x0 x1 arctan_tan [of x] by (simp add: tan_def)
  finally have "atan2 (sqrt (hav_a lat1 lon lat2 lon)) (sqrt (1 - hav_a lat1 lon lat2 lon)) = x" .
  then have "haversine_distance lat1 lon lat2 lon = 6371000 * (2 * x)"
    by (simp only: haversine_distance_def Let_def)
  moreover have "2 * x = \<bar>lat2 - lat1\<bar> * pi / 180"
    by (simp add: x_def radians_def)
  ultimately show ?thesis by (simp only:)
qed

lemma haversine_one_degree:
  assumes "\<bar>lat2 - lat1\<bar> = 1"
  shows "\<bar>haversine_distance lat1 lon lat2 lon - 111000\<bar> \<le> 2000"
proof -
  have "haversine_distance lat1 lon lat2 lon = 6371000 * (pi / 180)"
    using haversine_meridian [of lat2 lat1 lon] assms by simp
  then show ?thesis using pi_lower pi_upper by simp
qed

lemma radians_diff: "radians (x - y) = radians x - radians y"
  by (simp add: radians_def diff_divide_distrib left_diff_distrib)

lemma cos_diff_times_cos_add:
  fixes P M :: real
  shows "cos (P - M) * cos (P + M) = (cos P)\<^sup>2 - (sin M)\<^sup>2"
proof -
  have "cos (P - M) * cos (P + M) = (cos P)\<^sup>2 * (cos M)\<^sup>2 - (sin P)\<^sup>2 * (sin M)\<^sup>2"
    by (simp add: cos_add cos_diff power2_eq_square algebra_simps)
  also have "\<dots> = (cos P)\<^sup>2 * (1 - (sin M)\<^sup>2) - (1 - (cos P)\<^sup>2) * (sin M)\<^sup>2"
    by (simp only: cos_squared_eq [of M] sin_squared_eq [of P])
  also have "\<dots> = (cos P)\<^sup>2 - (sin M)\<^sup>2"
    by (simp add: algebra_simps)
  finally show ?thesis .
qed

lemma cos_cos_halves:
  fixes x y :: real
  shows "cos x * cos y = (cos ((x + y) / 2))\<^sup>2 - (sin ((y - x) / 2))\<^sup>2"
proof -
  have "(x + y) / 2 - (y - x) / 2 = x" "(x + y) / 2 + (y - x) / 2 = y"
    by (simp_all add: field_simps)
  then show ?thesis
    using cos_diff_times_cos_add [of "(x + y) / 2" "(y - x) / 2"] by simp
qed

lemma convex_unit:
  fixes s a0 a1 :: real
  assumes "0 \<le> s" "s \<le> 1" "0 \<le> a0" "a0 \<le> 1" "0 \<le> a1" "a1 \<le> 1"
  shows "0 \<le> a0 + (a1 - a0) * s \<and> a0 + (a1 - a0) * s \<le> 1"
proof -
  have eq: "a0 + (a1 - a0) * s = (1 - s) * a0 + s * a1" by (simp add: algebra_simps)
  have "0 \<le> (1 - s) * a0" "0 \<le> s * a1" using assms by simp_all
  moreover have "(1 - s) * a0 \<le> 1 - s"
    using mult_left_mono [of a0 1 "1 - s"] assms by simp
  moreover have "s * a1 \<le> s"
    using mult_left_mono [of a1 1 s] assms by simp
  ultimately have "0 \<le> (1 - s) * a0 + s * a1 \<and> (1 - s) * a0 + s * a1 \<le> 1" by linarith
  then show ?thesis by (simp only: eq)
qed

lemma hav_a_bounds: "0 \<le> hav_a lat1 lon1 lat2 lon2 \<and> hav_a lat1 lon1 lat2 lon2 \<le> 1"
proof -
  define a0 where "a0 = (sin ((radians lat2 - radians lat1) / 2))\<^sup>2"
  define a1 where "a1 = (cos ((radians lat1 + radians lat2) / 2))\<^sup>2"
  define s where "s = (sin (radians (lon2 - lon1) / 2))\<^sup>2"
  have b: "0 \<le> s" "s \<le> 1" "0 \<le> a0" "a0 \<le> 1" "0 \<le> a1" "a1 \<le> 1"
    by (simp_all add: s_def a0_def a1_def abs_square_le_1)
  have "hav_a lat1 lon1 lat2 lon2 = a0 + (a1 - a0) * s"
    by (simp add: hav_a_def Let_def radians_diff cos_cos_halves a0_def a1_def s_def)
  then show ?thesis using convex_unit [OF b] by simp
qed


lemma atan2_pos: "0 < y \<Longrightarrow> 0 \<le> x \<Longrightarrow> 0 < atan2 y x"
  by (simp add: atan2_def)


lemma haversine_pos:
  assumes "0 < hav_a lat1 lon1 lat2 lon2"
  shows "0 < haversine_distance lat1 lon1 lat2 lon2"
proof -
  have "0 < atan2 (sqrt (hav_a lat1 lon1 lat2 lon2)) (sqrt (1 - hav_a lat1 lon1 lat2 lon2))"
    using hav_a_bounds [of lat1 lon1 lat2 lon2] assms by (intro atan2_pos) simp_all
  then show ?thesis by (simp add: haversine_distance_def Let_def)
qed

lemma direct_road_length_pos: "0 < haversine_distance 52.40 16.90 52.40 16.92"
proof (rule haversine_pos)
  have c: "0 < cos (radians 52.40)"
    using pi_gt_zero by (intro cos_gt_zero_pi) (simp_all add: radians_def)
  have "0 < sin (radians (16.92 - 16.90) / 2)"
    using pi_gt_zero by (intro sin_gt_zero) (simp_all add: radians_def)
  then have s: "0 < (sin (radians (16.92 - 16.90) / 2))\<^sup>2" by simp
  have "hav_a 52.40 16.90 52.40 16.92
      = cos (radians 52.40) * cos (radians 52.40) * (sin (radians (16.92 - 16.90) / 2))\<^sup>2"
    by (simp add: hav_a_def Let_def radians_def)
  also have "0 < \<dots>" using c s by simp
  finally show "0 < hav_a 52.40 16.90 52.40 16.92" .
qed


text \<open>
  In exact arithmetic the geodesic distance of a point to itself is 0, the distance is
  symmetric in its two points, and two points of one meridian whose latitudes differ by
  exactly one degree are within 2000 m of 111000 m apart.
\<close>

lemma haversine_exact_properties:
  "haversine_distance lat lon lat lon = 0
   \<and> haversine_distance lat1 lon1 lat2 lon2 = haversine_distance lat2 lon2 lat1 lon1
   \<and> (\<bar>lat2 - lat1\<bar> = 1 \<longrightarrow> \<bar>haversine_distance lat1 lon1 lat2 lon1 - 111000\<bar> \<le> 2000)"
  using haversine_self haversine_sym haversine_one_degree by blast

lemma haversine_exact_properties_example:
  "haversine_distance 52 16 52 16 = 0
   \<and> haversine_distance 52 16 53 16 = haversine_distance 53 16 52 16
   \<and> \<bar>(53::real) - 52\<bar> = 1
   \<and> \<bar>haversine_distance 52 16 53 16 - 111000\<bar> \<le> 2000"
proof -
  have h: "\<bar>(53::real) - 52\<bar> = 1" by simp
  from haversine_exact_properties [of 52 16 52 16 53 16] h show ?thesis by blast
qed



lemma hav_a_antipode: "hav_a 12 10 (-12) (-170) = 1"
proof -
  have 1: "radians (- 24) / 2 = - radians 12" by (simp add: radians_def)
  have 2: "radians (- 180) / 2 = - (pi / 2)" by (simp add: radians_def)
  have 3: "radians (- 12) = - radians 12" by (simp add: radians_def)
  have "hav_a 12 10 (-12) (-170)
      = (sin (radians 12))\<^sup>2 + cos (radians 12) * cos (radians 12)"
    by (simp add: hav_a_def Let_def 1 2 3)
  also have "\<dots> = (sin (radians 12))\<^sup>2 + (cos (radians 12))\<^sup>2"
    by (simp add: power2_eq_square)
  finally show ?thesis by simp
qed

lemma hav_a_antipode_swapped: "hav_a (-12) (-170) 12 10 = 1"
  using hav_a_antipode hav_a_sym [of "-12" "-170" 12 10] by simp




subsection \<open>The nearest-node locator\<close>

lemma nearest_loop_some:
  "\<exists>m' v'. nearest_loop lat lon ns (Some m, Some v0) = (Some m', Some v')
     \<and> m' \<le> m \<and> (\<forall>n \<in> set ns. m' \<le> query_distance lat lon n)
     \<and> ((m' = m \<and> v' = v0)
        \<or> (\<exists>i < length ns. ns ! i = v' \<and> query_distance lat lon v' = m' \<and> m' < m
              \<and> (\<forall>j < i. m' < query_distance lat lon (ns ! j))))"
proof (induction ns arbitrary: m v0)
  case Nil
  then show ?case by simp
next
  case (Cons n rest)
  let ?d = "query_distance lat lon n"
  show ?case
  proof (cases "?d < m")
    case True
    from Cons.IH [of ?d n] obtain m' v' where
      r: "nearest_loop lat lon rest (Some ?d, Some n) = (Some m', Some v')"
      and le: "m' \<le> ?d" and lb: "\<forall>x \<in> set rest. m' \<le> query_distance lat lon x"
      and alt: "(m' = ?d \<and> v' = n)
        \<or> (\<exists>i < length rest. rest ! i = v' \<and> query_distance lat lon v' = m' \<and> m' < ?d
              \<and> (\<forall>j < i. m' < query_distance lat lon (rest ! j)))"
      by blast
    have step: "nearest_loop lat lon (n # rest) (Some m, Some v0) = (Some m', Some v')"
      using True r by (simp add: query_distance_def)
    from alt have "\<exists>i < length (n # rest). (n # rest) ! i = v' \<and> query_distance lat lon v' = m'
        \<and> m' < m \<and> (\<forall>j < i. m' < query_distance lat lon ((n # rest) ! j))"
    proof
      assume "m' = ?d \<and> v' = n"
      then show ?thesis using True by (intro exI [of _ 0]) simp
    next
      assume "\<exists>i < length rest. rest ! i = v' \<and> query_distance lat lon v' = m' \<and> m' < ?d
              \<and> (\<forall>j < i. m' < query_distance lat lon (rest ! j))"
      then obtain i where i: "i < length rest" "rest ! i = v'" "query_distance lat lon v' = m'"
        "m' < ?d" "\<forall>j < i. m' < query_distance lat lon (rest ! j)" by blast
      have "\<forall>j < Suc i. m' < query_distance lat lon ((n # rest) ! j)"
        using i(4,5) by (auto simp: nth_Cons split: nat.splits)
      then show ?thesis using i True by (intro exI [of _ "Suc i"]) simp
    qed
    then show ?thesis using step le lb True by auto
  next
    case False
    from Cons.IH [of m v0] obtain m' v' where
      r: "nearest_loop lat lon rest (Some m, Some v0) = (Some m', Some v')"
      and le: "m' \<le> m" and lb: "\<forall>x \<in> set rest. m' \<le> query_distance lat lon x"
      and alt: "(m' = m \<and> v' = v0)
        \<or> (\<exists>i < length rest. rest ! i = v' \<and> query_distance lat lon v' = m' \<and> m' < m
              \<and> (\<forall>j < i. m' < query_distance lat lon (rest ! j)))"
      by blast
    have step: "nearest_loop lat lon (n # rest) (Some m, Some v0) = (Some m', Some v')"
      using False r by (simp add: query_distance_def)
    from alt have "(m' = m \<and> v' = v0) \<or> (\<exists>i < length (n # rest). (n # rest) ! i = v'
        \<and> query_distance lat lon v' = m'
        \<and> m' < m \<and> (\<forall>j < i. m' < query_distance lat lon ((n # rest) ! j)))"
    proof
      assume "m' = m \<and> v' = v0"
      then show ?thesis by simp
    next
      assume "\<exists>i < length rest. rest ! i = v' \<and> query_distance lat lon v' = m' \<and> m' < m
              \<and> (\<forall>j < i. m' < query_distance lat lon (rest ! j))"
      then obtain i where i: "i < length rest" "rest ! i = v'" "query_distance lat lon v' = m'"
        "m' < m" "\<forall>j < i. m' < query_distance lat lon (rest ! j)" by blast
      have "\<forall>j < Suc i. m' < query_distance lat lon ((n # rest) ! j)"
        using i(4,5) False by (auto simp: nth_Cons split: nat.splits)
      then have "\<exists>k < length (n # rest). (n # rest) ! k = v'
        \<and> query_distance lat lon v' = m'
        \<and> m' < m \<and> (\<forall>j < k. m' < query_distance lat lon ((n # rest) ! j))"
        using i by (intro exI [of _ "Suc i"]) simp
      then show ?thesis by blast
    qed
    then show ?thesis using step le lb False by auto
  qed
qed

lemma find_nearest_node_empty: "nodes g = [] \<Longrightarrow> find_nearest_node g lat lon = None"
  by (simp add: find_nearest_node_def)

lemma find_nearest_node_first_min:
  assumes "nodes g \<noteq> []"
  shows "\<exists>v i. find_nearest_node g lat lon = Some v \<and> i < length (nodes g) \<and> nodes g ! i = v
     \<and> (\<forall>u \<in> set (nodes g). query_distance lat lon v \<le> query_distance lat lon u)
     \<and> (\<forall>j < i. query_distance lat lon v < query_distance lat lon (nodes g ! j))"
proof -
  from assms obtain n rest where ns: "nodes g = n # rest" by (cases "nodes g") auto
  let ?d = "query_distance lat lon n"
  from nearest_loop_some [of lat lon rest ?d n] obtain m' v' where
    r: "nearest_loop lat lon rest (Some ?d, Some n) = (Some m', Some v')"
    and le: "m' \<le> ?d" and lb: "\<forall>x \<in> set rest. m' \<le> query_distance lat lon x"
    and alt: "(m' = ?d \<and> v' = n)
      \<or> (\<exists>i < length rest. rest ! i = v' \<and> query_distance lat lon v' = m' \<and> m' < ?d
            \<and> (\<forall>j < i. m' < query_distance lat lon (rest ! j)))"
    by blast
  have res: "find_nearest_node g lat lon = Some v'"
    using r by (simp add: find_nearest_node_def ns query_distance_def)
  from alt show ?thesis
  proof
    assume a: "m' = ?d \<and> v' = n"
    then have "\<forall>u \<in> set (nodes g). query_distance lat lon v' \<le> query_distance lat lon u"
      using lb by (simp add: ns)
    then show ?thesis using res a ns by (intro exI [of _ v'] exI [of _ 0]) simp
  next
    assume "\<exists>i < length rest. rest ! i = v' \<and> query_distance lat lon v' = m' \<and> m' < ?d
            \<and> (\<forall>j < i. m' < query_distance lat lon (rest ! j))"
    then obtain i where i: "i < length rest" "rest ! i = v'" "query_distance lat lon v' = m'"
      "m' < ?d" "\<forall>j < i. m' < query_distance lat lon (rest ! j)" by blast
    have 1: "\<forall>j < Suc i. query_distance lat lon v' < query_distance lat lon (nodes g ! j)"
      using i(3,4,5) by (auto simp: ns nth_Cons split: nat.splits)
    have 2: "\<forall>u \<in> set (nodes g). query_distance lat lon v' \<le> query_distance lat lon u"
      using lb le i(3) by (auto simp: ns)
    show ?thesis using res i(1,2) 1 2 by (intro exI [of _ v'] exI [of _ "Suc i"]) (simp add: ns)
  qed
qed

text \<open>
  In exact arithmetic, where no distance computation raises, the locator returns no node
  exactly when the graph has no node. Otherwise it returns a node of the graph whose
  distance to the query point is least among all nodes, and the first such node in the
  order the graph enumerates its nodes: every node before it is strictly farther.
\<close>

lemma find_nearest_node_exact:
  "(find_nearest_node g lat lon = None \<longleftrightarrow> nodes g = [])
   \<and> (\<forall>v. find_nearest_node g lat lon = Some v \<longrightarrow>
        (\<exists>i < length (nodes g). nodes g ! i = v
           \<and> (\<forall>u \<in> set (nodes g). query_distance lat lon v \<le> query_distance lat lon u)
           \<and> (\<forall>j < i. query_distance lat lon v < query_distance lat lon (nodes g ! j))))"
proof (cases "nodes g = []")
  case True
  then show ?thesis by (simp add: find_nearest_node_empty)
next
  case False
  from find_nearest_node_first_min [OF False, of lat lon] show ?thesis
    using False by auto
qed

text \<open>Two nodes at the same distance from the query point: the first one is returned.\<close>

lemma find_nearest_node_exact_example:
  "find_nearest_node \<lparr>nodes = [(0, 1), (0, -1), (0, 3)], edges = []\<rparr> 0 0 = Some (0, 1)
   \<and> query_distance 0 0 (0, 1) = query_distance 0 0 (0, -1)
   \<and> (\<exists>i < length (nodes \<lparr>nodes = [(0, 1), (0, -1), (0, 3)], edges = []\<rparr>).
         nodes \<lparr>nodes = [(0, 1), (0, -1), (0, 3)], edges = []\<rparr> ! i = (0, 1)
         \<and> (\<forall>u \<in> set (nodes \<lparr>nodes = [(0, 1), (0, -1), (0, 3)], edges = []\<rparr>).
               query_distance 0 0 (0, 1) \<le> query_distance 0 0 u)
         \<and> (\<forall>j < i. query_distance 0 0 (0, 1)
               < query_distance 0 0 (nodes \<lparr>nodes = [(0, 1), (0, -1), (0, 3)], edges = []\<rparr> ! j)))
   \<and> (find_nearest_node empty_graph 0 0 = None)"
proof -
  let ?g = "\<lparr>nodes = [(0, 1), (0, -1), (0, 3)], edges = []\<rparr>"
  have r: "find_nearest_node ?g 0 0 = Some (0, 1)"
    by (simp add: find_nearest_node_def haversine_meridian)
  have q: "query_distance 0 0 (0, 1) = query_distance 0 0 (0, -1)"
    by (simp add: query_distance_def haversine_meridian)
  have e: "nodes empty_graph = []" by (simp add: empty_graph_def)
  from find_nearest_node_exact [of ?g 0 0] r
  have "\<exists>i < length (nodes ?g). nodes ?g ! i = (0, 1)
         \<and> (\<forall>u \<in> set (nodes ?g). query_distance 0 0 (0, 1) \<le> query_distance 0 0 u)
         \<and> (\<forall>j < i. query_distance 0 0 (0, 1) < query_distance 0 0 (nodes ?g ! j))"
    by blast
  moreover from find_nearest_node_exact [of empty_graph 0 0] e
  have "find_nearest_node empty_graph 0 0 = None" by blast
  ultimately show ?thesis using r q by blast
qed


text \<open>The locator over a distance utility that can raise.\<close>

lemma nearest_loop_raising_exact:
  "nearest_loop_raising (\<lambda>lat1 lon1 lat2 lon2. Inr (haversine_distance lat1 lon1 lat2 lon2))
       lat lon ns st
     = Inr (nearest_loop lat lon ns st)"
  by (induction ns arbitrary: st) (simp_all add: Let_def)

lemma nearest_loop_raising_raises:
  "\<exists>n \<in> set ns. \<exists>e. distance_fn lat lon (snd n) (fst n) = Inl e \<Longrightarrow>
   \<exists>e. nearest_loop_raising distance_fn lat lon ns st = Inl e"
proof (induction ns arbitrary: st)
  case Nil
  then show ?case by simp
next
  case (Cons n rest)
  show ?case
  proof (cases "distance_fn lat lon (snd n) (fst n)")
    case (Inl e)
    then show ?thesis by simp
  next
    case (Inr d)
    with Cons.prems have "\<exists>n \<in> set rest. \<exists>e. distance_fn lat lon (snd n) (fst n) = Inl e"
      by auto
    from Cons.IH [OF this] show ?thesis using Inr by (simp add: Let_def)
  qed
qed



subsection \<open>The weighting invariant\<close>

lemma segment_attrs_fresh: "fresh_edge (segment_attrs a b fid i)"
  by (simp add: fresh_edge_def segment_attrs_def base_distance_def)

lemma add_edge_fresh:
  "fresh_graph g \<Longrightarrow> fresh_edge d \<Longrightarrow> fresh_graph (add_edge g u v d)"
  by (auto simp: fresh_graph_def add_edge_def list_all_iff)

lemma insert_segments_fresh:
  "fresh_graph g \<Longrightarrow> \<forall>s \<in> set segs. fresh_edge (snd (snd s)) \<Longrightarrow>
   fresh_graph (foldl insert_segment g segs)"
  by (induction segs arbitrary: g) (auto simp: insert_segment_def add_edge_fresh split: prod.splits)

lemma linestring_segments_fresh:
  "\<forall>s \<in> set (linestring_segments coords fid). fresh_edge (snd (snd s))"
  by (auto simp: linestring_segments_def segment_attrs_fresh)

lemma add_linestring_fresh:
  "fresh_graph g \<Longrightarrow> fresh_graph (fst (add_linestring_to_graph g coords fid))"
  by (simp add: add_linestring_to_graph_def insert_segments_fresh linestring_segments_fresh)

lemma add_parts_fresh: "fresh_graph g \<Longrightarrow> fresh_graph (fst (add_parts g parts fid))"
proof (induction parts arbitrary: g)
  case Nil
  then show ?case by simp
next
  case (Cons line parts)
  have "fst (add_parts g (line # parts) fid)
      = fst (add_parts (fst (add_linestring_to_graph g line fid)) parts fid)"
    by (simp split: prod.splits)
  then show ?case using Cons by (simp add: add_linestring_fresh)
qed

lemma build_rows_fresh: "fresh_graph g \<Longrightarrow> fresh_graph (fst (fst (build_rows g n rows)))"
proof (induction rows arbitrary: g n)
  case Nil
  then show ?case by simp
next
  case (Cons row rows)
  obtain idx geom where row: "row = (idx, geom)" by (cases row)
  show ?case
  proof (cases geom)
    case (LineString coords)
    then show ?thesis
      using Cons.IH [OF add_linestring_fresh [OF Cons.prems, of coords idx]]
      by (simp add: row split_beta)
  next
    case (MultiLineString parts)
    then show ?thesis
      using Cons.IH [OF add_parts_fresh [OF Cons.prems, of parts idx]]
      by (simp add: row split_beta)
  next
    case OtherGeometry
    then show ?thesis using Cons by (simp add: row)
  next
    case MissingGeometry
    then show ?thesis using Cons.prems by (simp add: row)
  qed
qed

text \<open>Every edge of a graph that \<^verbatim>\<open>build_graph\<close> has just built is unflagged at its base distance.\<close>

lemma build_graph_fresh:
  assumes "gdf p = Some rows" and "graph (snd (build_graph p)) = Some g"
  shows "fresh_graph g"
proof -
  have e: "fresh_graph empty_graph" by (simp add: fresh_graph_def empty_graph_def)
  have "graph (snd (build_graph p)) = Some (fst (fst (build_rows empty_graph 0 rows)))"
    using assms(1) by (simp add: build_graph_def split: prod.splits option.splits)
  with assms(2) build_rows_fresh [OF e, of 0 rows] show ?thesis by simp
qed

lemma mark_edge_cases:
  "mark_edge intersects d zones =
     (if list_ex (intersects (geometry d)) zones
      then d\<lparr>is_flooded := True, weight := weight d * 100\<rparr> else d)"
  by (induction zones) auto

text \<open>
  One overlay on a newly built graph: an edge is flagged, at 100 times its base
  distance, exactly when its geometry intersects one of the zones, and the weighting
  invariant holds.
\<close>

lemma first_overlay_marks_intersecting:
  assumes "fresh_graph g" and "e \<in> set (edges (mark_graph intersects zones g))"
  shows "(is_flooded (snd e) \<and> weight (snd e) = base_distance (snd e) * 100)
           = list_ex (intersects (geometry (snd e))) zones
       \<and> consistent_edge (snd e)"
proof -
  from assms(2) obtain e0 where e0: "e0 \<in> set (edges g)"
    and e: "e = (fst e0, mark_edge intersects (snd e0) zones)"
    by (auto simp: mark_graph_def)
  from assms(1) e0 have f: "fresh_edge (snd e0)"
    by (auto simp: fresh_graph_def list_all_iff)
  show ?thesis
    using f by (simp add: e mark_edge_cases fresh_edge_def consistent_edge_def base_distance_def)
qed

lemma first_overlay_consistent:
  "fresh_graph g \<Longrightarrow> weights_consistent (mark_graph intersects zones g)"
  using first_overlay_marks_intersecting [of g _ intersects zones]
  by (auto simp: weights_consistent_def list_all_iff)

text \<open>
  Two overlays: an edge that intersects a zone of each has its weight multiplied by
  100 twice, and an edge flagged by the first overlay stays flagged after the second.
\<close>

lemma second_overlay_compounds:
  assumes "list_ex (intersects (geometry d)) zones"
    and "list_ex (intersects (geometry d)) zones'"
  shows "weight (mark_edge intersects (mark_edge intersects d zones) zones')
           = weight d * 100 * 100"
  using assms by (simp add: mark_edge_cases)

lemma overlay_never_clears:
  "is_flooded d \<Longrightarrow> is_flooded (mark_edge intersects d zones)"
  by (simp add: mark_edge_cases)

subsection \<open>The rectangle zone\<close>

lemma slab_None:
  "slab p d lo hi = None \<Longrightarrow> \<not> (lo \<le> p + t * d \<and> p + t * d \<le> hi)"
  by (auto simp: slab_def split: if_splits)

lemma slab_Some:
  assumes "slab p d lo hi = Some (a, b)" and "lo \<le> hi"
  shows "(0 \<le> t \<and> t \<le> 1 \<and> lo \<le> p + t * d \<and> p + t * d \<le> hi) = (a \<le> t \<and> t \<le> b)"
proof (cases "d = 0")
  case True
  with assms show ?thesis by (auto simp: slab_def split: if_splits)
next
  case False
  then have ab: "a = max 0 (min ((lo - p) / d) ((hi - p) / d))"
    "b = min 1 (max ((lo - p) / d) ((hi - p) / d))"
    using assms(1) by (simp_all add: slab_def)
  show ?thesis
  proof (cases "0 < d")
    case True
    have 1: "(lo \<le> p + t * d) = ((lo - p) / d \<le> t)"
      using True by (simp add: pos_divide_le_eq algebra_simps)
    have 2: "(p + t * d \<le> hi) = (t \<le> (hi - p) / d)"
      using True by (simp add: pos_le_divide_eq algebra_simps)
    have "(lo - p) / d \<le> (hi - p) / d"
      using True assms(2) by (simp add: divide_right_mono)
    then show ?thesis unfolding 1 2 ab by auto
  next
    case F: False
    with False have neg: "d < 0" by simp
    have 1: "(lo \<le> p + t * d) = (t \<le> (lo - p) / d)"
      using neg by (simp add: neg_le_divide_eq algebra_simps)
    have 2: "(p + t * d \<le> hi) = ((hi - p) / d \<le> t)"
      using neg by (simp add: neg_divide_le_eq algebra_simps)
    have "(hi - p) / d \<le> (lo - p) / d"
      using neg assms(2) by (simp add: divide_right_mono_neg)
    then show ?thesis unfolding 1 2 ab by auto
  qed
qed

text \<open>
  The rectangle instance of \<^verbatim>\<open>intersects\<close> decides whether some point of the segment
  lies in the closed rectangle.
\<close>

lemma box_intersects_iff:
  assumes "min_lon \<le> max_lon" and "min_lat \<le> max_lat"
  shows "box_intersects (p, q) (Box min_lon min_lat max_lon max_lat) =
     (\<exists>t. 0 \<le> t \<and> t \<le> 1
        \<and> min_lon \<le> fst p + t * (fst q - fst p) \<and> fst p + t * (fst q - fst p) \<le> max_lon
        \<and> min_lat \<le> snd p + t * (snd q - snd p) \<and> snd p + t * (snd q - snd p) \<le> max_lat)"
proof (cases "slab (fst p) (fst q - fst p) min_lon max_lon")
  case None
  then show ?thesis using slab_None [OF None] by auto
next
  case sx: (Some ab)
  obtain a b where ab: "ab = (a, b)" by (cases ab)
  show ?thesis
  proof (cases "slab (snd p) (snd q - snd p) min_lat max_lat")
    case None
    then show ?thesis using slab_None [OF None] by (auto simp: sx ab)
  next
    case sy: (Some cd)
    obtain c d where cd: "cd = (c, d)" by (cases cd)
    note x = slab_Some [OF sx [unfolded ab] assms(1)]
    note y = slab_Some [OF sy [unfolded cd] assms(2)]
    have "(max a c \<le> min b d) = (\<exists>t. (a \<le> t \<and> t \<le> b) \<and> (c \<le> t \<and> t \<le> d))"
    proof
      assume "max a c \<le> min b d"
      then have "(a \<le> max a c \<and> max a c \<le> b) \<and> (c \<le> max a c \<and> max a c \<le> d)" by auto
      then show "\<exists>t. (a \<le> t \<and> t \<le> b) \<and> (c \<le> t \<and> t \<le> d)" by blast
    next
      assume "\<exists>t. (a \<le> t \<and> t \<le> b) \<and> (c \<le> t \<and> t \<le> d)"
      then show "max a c \<le> min b d" by auto
    qed
    also have "\<dots> = (\<exists>t. 0 \<le> t \<and> t \<le> 1
        \<and> min_lon \<le> fst p + t * (fst q - fst p) \<and> fst p + t * (fst q - fst p) \<le> max_lon
        \<and> min_lat \<le> snd p + t * (snd q - snd p) \<and> snd p + t * (snd q - snd p) \<le> max_lat)"
      using x y by blast
    finally show ?thesis by (simp add: sx sy ab cd)
  qed
qed


subsection \<open>The overlay on the network of the test suite\<close>

lemmas build_simps =
  built_def build_graph_def load_road_network_def init_planner_def
  add_linestring_to_graph_def linestring_segments_def segment_attrs_def insert_segment_def
  add_edge_def add_node_def same_edge_def empty_graph_def digit_char_def

lemmas overlay_simps =
  overlaid_def set_flood_zones_def mark_flooded_edges_def mark_graph_def slab_def

lemma test_graph:
  "built test_rows =
     \<lparr>gdf = Some test_rows,
      graph = Some
     \<lparr>nodes = [(16.90, 52.40), (16.92, 52.40), (16.91, 52.41)],
      edges =
        [(((16.90, 52.40), (16.92, 52.40)),
          \<lparr>weight = haversine_distance 52.40 16.90 52.40 16.92,
           geometry = ((16.90, 52.40), (16.92, 52.40)), segment_id = ''0_0'', is_flooded = False\<rparr>),
         (((16.90, 52.40), (16.91, 52.41)),
          \<lparr>weight = haversine_distance 52.40 16.90 52.41 16.91,
           geometry = ((16.90, 52.40), (16.91, 52.41)), segment_id = ''1_0'', is_flooded = False\<rparr>),
         (((16.91, 52.41), (16.92, 52.40)),
          \<lparr>weight = haversine_distance 52.41 16.91 52.40 16.92,
           geometry = ((16.91, 52.41), (16.92, 52.40)), segment_id = ''2_0'', is_flooded = False\<rparr>)]\<rparr>,
      flood_zones = []\<rparr>"
  by (simp add: test_rows_def build_simps)

lemma test_graph_flooded:
  "overlaid (built test_rows) [flood_poly] =
     \<lparr>gdf = Some test_rows,
      graph = Some
     \<lparr>nodes = [(16.90, 52.40), (16.92, 52.40), (16.91, 52.41)],
      edges =
        [(((16.90, 52.40), (16.92, 52.40)),
          \<lparr>weight = haversine_distance 52.40 16.90 52.40 16.92 * 100,
           geometry = ((16.90, 52.40), (16.92, 52.40)), segment_id = ''0_0'', is_flooded = True\<rparr>),
         (((16.90, 52.40), (16.91, 52.41)),
          \<lparr>weight = haversine_distance 52.40 16.90 52.41 16.91,
           geometry = ((16.90, 52.40), (16.91, 52.41)), segment_id = ''1_0'', is_flooded = False\<rparr>),
         (((16.91, 52.41), (16.92, 52.40)),
          \<lparr>weight = haversine_distance 52.41 16.91 52.40 16.92,
           geometry = ((16.91, 52.41), (16.92, 52.40)), segment_id = ''2_0'', is_flooded = False\<rparr>)]\<rparr>,
      flood_zones = [flood_poly]\<rparr>"
  unfolding test_graph by (simp add: overlay_simps flood_poly_def)

text \<open>
  C1. On the network of the test suite, two overlays with the same flood polygon leave
  the direct road flagged with the weight 100 * 100 times its base distance, which is
  not 100 times its base distance.
\<close>

theorem overlay_twice_compounds:
  "edge_of (overlaid (overlaid (built test_rows) [flood_poly]) [flood_poly])
      (16.90, 52.40) (16.92, 52.40)
    = Some \<lparr>weight = haversine_distance 52.40 16.90 52.40 16.92 * 100 * 100,
            geometry = ((16.90, 52.40), (16.92, 52.40)), segment_id = ''0_0'', is_flooded = True\<rparr>
   \<and> base_distance \<lparr>weight = haversine_distance 52.40 16.90 52.40 16.92 * 100 * 100,
            geometry = ((16.90, 52.40), (16.92, 52.40)), segment_id = ''0_0'', is_flooded = True\<rparr>
      = haversine_distance 52.40 16.90 52.40 16.92
   \<and> haversine_distance 52.40 16.90 52.40 16.92 * 100 * 100
      \<noteq> haversine_distance 52.40 16.90 52.40 16.92 * 100"
  unfolding test_graph_flooded using direct_road_length_pos
  by (simp add: overlay_simps flood_poly_def edge_of_def get_edge_data_def
      same_edge_def base_distance_def)

text \<open>
  C3. On the network of the test suite, an overlay with the flood polygon followed by
  an overlay with a zone that the direct road does not intersect leaves the direct road
  flagged and penalised; the second zone set alone leaves it unflagged at its base
  distance.
\<close>

theorem overlay_keeps_stale_flags:
  "edge_of (overlaid (overlaid (built test_rows) [flood_poly]) [detour_poly])
      (16.90, 52.40) (16.92, 52.40)
    = Some \<lparr>weight = haversine_distance 52.40 16.90 52.40 16.92 * 100,
            geometry = ((16.90, 52.40), (16.92, 52.40)), segment_id = ''0_0'', is_flooded = True\<rparr>
   \<and> \<not> box_intersects ((16.90, 52.40), (16.92, 52.40)) detour_poly
   \<and> edge_of (overlaid (built test_rows) [detour_poly]) (16.90, 52.40) (16.92, 52.40)
    = Some \<lparr>weight = haversine_distance 52.40 16.90 52.40 16.92,
            geometry = ((16.90, 52.40), (16.92, 52.40)), segment_id = ''0_0'', is_flooded = False\<rparr>"
  unfolding test_graph_flooded test_graph
  by (simp add: overlay_simps detour_poly_def flood_poly_def edge_of_def get_edge_data_def
      same_edge_def)

subsection \<open>Requests before the graph is ready\<close>

text \<open>
  C5. When the graph has not been built, or has no node, \<^verbatim>\<open>find_route\<close>
  returns \<^verbatim>\<open>None\<close>: a value without status. It does so whatever the search
  function is, so no search takes place, and nothing is raised.
\<close>

theorem find_route_not_ready:
  "graph p = None \<or> (\<exists>g. graph p = Some g \<and> nodes g = []) \<Longrightarrow>
   find_route astar_path p start_lat start_lon end_lat end_lon = PyNone"
  by (auto simp: find_route_def find_nearest_node_def)

theorem find_route_not_ready_witness:
  "graph (init_planner :: box planner) = None
   \<and> find_route path_search (init_planner :: box planner) 52.40 16.90 52.40 16.92 = PyNone
   \<and> graph (built []) = Some empty_graph \<and> nodes empty_graph = []
   \<and> find_route path_search (built []) 52.40 16.90 52.40 16.92 = PyNone"
proof -
  have 1: "graph (init_planner :: box planner) = None" by (simp add: init_planner_def)
  have 2: "graph (built []) = Some empty_graph" by (simp add: build_simps)
  have 3: "nodes empty_graph = []" by (simp add: empty_graph_def)
  from find_route_not_ready [of "init_planner :: box planner" path_search "52.40" "16.90" "52.40" "16.92"] 1
  have "find_route path_search (init_planner :: box planner) 52.40 16.90 52.40 16.92 = PyNone"
    by blast
  moreover from find_route_not_ready [of "built []" path_search "52.40" "16.90" "52.40" "16.92"] 2 3
  have "find_route path_search (built []) 52.40 16.90 52.40 16.92 = PyNone" by blast
  ultimately show ?thesis using 1 2 3 by blast
qed

text \<open>Before the build the result is \<^verbatim>\<open>None\<close>, which has no status \<^verbatim>\<open>not_ready\<close>.\<close>

theorem find_route_before_build_counterexample:
  "find_route path_search (init_planner :: box planner) 52.40 16.90 52.40 16.92 = PyNone
   \<and> result_status (find_route path_search (init_planner :: box planner) 52.40 16.90 52.40 16.92)
       \<noteq> Some ''not_ready''"
  by (simp add: find_route_def init_planner_def)


subsection \<open>Building from empty road data\<close>

lemma build_rows_other:
  "\<forall>r \<in> set rows. snd r = OtherGeometry \<Longrightarrow> build_rows g n rows = ((g, n), None)"
  by (induction rows) auto

text \<open>
  C6. \<^verbatim>\<open>build_graph\<close> returns \<^verbatim>\<open>False\<close> exactly when no road data has been
  loaded (\<^verbatim>\<open>gdf\<close> is \<^verbatim>\<open>None\<close>). Loaded road data without any line (no row, or only
  rows of other geometry types) builds the empty graph and returns \<^verbatim>\<open>True\<close>.
\<close>

theorem build_graph_fails_only_without_data:
  "(fst (build_graph p) = Returned False \<longleftrightarrow> gdf p = None)
   \<and> (\<forall>rows. gdf p = Some rows \<and> (\<forall>r \<in> set rows. snd r = OtherGeometry) \<longrightarrow>
         build_graph p = (Returned True, p\<lparr>graph := Some empty_graph\<rparr>))"
proof -
  have "(fst (build_graph p) = Returned False) = (gdf p = None)"
    by (auto simp: build_graph_def split: option.splits prod.splits)
  moreover have "\<forall>rows. gdf p = Some rows \<and> (\<forall>r \<in> set rows. snd r = OtherGeometry) \<longrightarrow>
         build_graph p = (Returned True, p\<lparr>graph := Some empty_graph\<rparr>)"
    by (auto simp: build_graph_def build_rows_other)
  ultimately show ?thesis by blast
qed

theorem build_graph_fails_only_without_data_witness:
  "gdf (init_planner :: box planner) = None
   \<and> fst (build_graph (init_planner :: box planner)) = Returned False
   \<and> gdf (init_planner\<lparr>gdf := Some []\<rparr> :: box planner) = Some []
   \<and> fst (build_graph (init_planner\<lparr>gdf := Some []\<rparr> :: box planner)) \<noteq> Returned False
   \<and> build_graph (init_planner\<lparr>gdf := Some []\<rparr> :: box planner)
       = (Returned True, init_planner\<lparr>gdf := Some [], graph := Some empty_graph\<rparr>)"
proof -
  let ?p = "init_planner\<lparr>gdf := Some []\<rparr> :: box planner"
  have 1: "gdf (init_planner :: box planner) = None" by (simp add: init_planner_def)
  have 2: "gdf ?p = Some []" by simp
  from build_graph_fails_only_without_data [of "init_planner :: box planner"] 1
  have a: "fst (build_graph (init_planner :: box planner)) = Returned False" by blast
  from build_graph_fails_only_without_data [of ?p] 2
  have b: "fst (build_graph ?p) \<noteq> Returned False"
    and c: "build_graph ?p = (Returned True, ?p\<lparr>graph := Some empty_graph\<rparr>)"
    by auto
  show ?thesis using 1 2 a b c by simp
qed

text \<open>Road data with no row: the build succeeds, and the graph is empty.\<close>

theorem build_graph_empty_counterexample:
  "build_graph (init_planner\<lparr>gdf := Some []\<rparr> :: box planner)
     = (Returned True, \<lparr>gdf = Some [], graph = Some \<lparr>nodes = [], edges = []\<rparr>, flood_zones = []\<rparr>)"
  by (simp add: build_graph_def init_planner_def empty_graph_def)


subsection \<open>Segment identifiers of multi-part features\<close>

lemma add_parts_concat:
  "fst (add_parts g parts idx)
     = foldl insert_segment g (concat (map (\<lambda>line. linestring_segments line idx) parts))"
proof (induction parts arbitrary: g)
  case Nil
  then show ?case by simp
next
  case (Cons line parts)
  have "fst (add_parts g (line # parts) idx)
      = fst (add_parts (foldl insert_segment g (linestring_segments line idx)) parts idx)"
    by (simp add: add_linestring_to_graph_def split: prod.splits)
  then show ?case by (simp add: Cons.IH)
qed

lemma linestring_segment_id:
  "j < length coords - 1 \<Longrightarrow>
   segment_id (snd (snd (linestring_segments coords idx ! j))) = str_nat idx @ ''_'' @ str_nat j"
  by (simp add: linestring_segments_def segment_attrs_def)

lemma find_replaced:
  "list_ex (\<lambda>e. P (fst e)) es \<Longrightarrow>
   map_option snd (find (\<lambda>e. P (fst e)) (map (\<lambda>e. if P (fst e) then (fst e, d) else e) es))
     = Some d"
  by (induction es) auto

lemma find_appended:
  "\<not> list_ex (\<lambda>e. P (fst e)) es \<Longrightarrow> P k \<Longrightarrow>
   map_option snd (find (\<lambda>e. P (fst e)) (es @ [(k, d)])) = Some d"
  by (induction es) auto

lemma get_edge_data_add_edge: "get_edge_data (add_edge g u v d) u v = Some d"
  using find_replaced [of "same_edge u v" "edges g" d]
    find_appended [of "same_edge u v" "edges g" "(u, v)" d]
  by (simp add: get_edge_data_def add_edge_def same_edge_def)

lemma inserted_segment_id:
  "j < length coords - 1 \<Longrightarrow>
   map_option segment_id
     (get_edge_data (insert_segment g (linestring_segments coords idx ! j))
        (coords ! j) (coords ! (j + 1)))
     = Some (str_nat idx @ ''_'' @ str_nat j)"
  by (simp add: linestring_segments_def insert_segment_def get_edge_data_add_edge
      segment_attrs_def)

lemma multi_graph:
  "graph (built multi_rows) = Some
     \<lparr>nodes = [(0, 0), (0, 1), (0, 5), (0, 6)],
      edges =
        [(((0, 0), (0, 1)),
          \<lparr>weight = haversine_distance 0 0 1 0,
           geometry = ((0, 0), (0, 1)), segment_id = ''7_0'', is_flooded = False\<rparr>),
         (((0, 5), (0, 6)),
          \<lparr>weight = haversine_distance 5 0 6 0,
           geometry = ((0, 5), (0, 6)), segment_id = ''7_0'', is_flooded = False\<rparr>)]\<rparr>"
  by (simp add: multi_rows_def build_simps)

text \<open>
  C10. For a MultiLineString feature the builder adds the segments of each part in
  turn; the segment of index \<open>j\<close> of every part gets the identifier made of the
  feature's index, an underscore and \<open>j\<close>, with \<open>j\<close> counted from 0 in every part, and
  the edge carries it once the segment is inserted. In the graph built from one feature
  of two one-segment parts, the two edges carry the same identifier.
\<close>

theorem multilinestring_segment_ids:
  "(\<forall>k < length parts. \<forall>j < length (parts ! k) - 1.
      segment_id (snd (snd (linestring_segments (parts ! k) idx ! j)))
        = str_nat idx @ ''_'' @ str_nat j
      \<and> (\<forall>g'. map_option segment_id
                 (get_edge_data (insert_segment g' (linestring_segments (parts ! k) idx ! j))
                    (parts ! k ! j) (parts ! k ! (j + 1)))
               = Some (str_nat idx @ ''_'' @ str_nat j)))
   \<and> fst (add_parts g parts idx)
        = foldl insert_segment g (concat (map (\<lambda>line. linestring_segments line idx) parts))
   \<and> build_rows g n ((idx, MultiLineString parts) # rows)
        = build_rows (fst (add_parts g parts idx)) (n + snd (add_parts g parts idx)) rows
   \<and> map_option segment_id (edge_of (built multi_rows) (0, 0) (0, 1)) = Some ''7_0''
   \<and> map_option segment_id (edge_of (built multi_rows) (0, 5) (0, 6)) = Some ''7_0''"
proof -
  have 1: "\<forall>k < length parts. \<forall>j < length (parts ! k) - 1.
      segment_id (snd (snd (linestring_segments (parts ! k) idx ! j)))
        = str_nat idx @ ''_'' @ str_nat j
      \<and> (\<forall>g'. map_option segment_id
                 (get_edge_data (insert_segment g' (linestring_segments (parts ! k) idx ! j))
                    (parts ! k ! j) (parts ! k ! (j + 1)))
               = Some (str_nat idx @ ''_'' @ str_nat j))"
    using linestring_segment_id inserted_segment_id by blast
  have 2: "build_rows g n ((idx, MultiLineString parts) # rows)
        = build_rows (fst (add_parts g parts idx)) (n + snd (add_parts g parts idx)) rows"
    by (simp add: split_beta)
  have 3: "map_option segment_id (edge_of (built multi_rows) (0, 0) (0, 1)) = Some ''7_0''"
    "map_option segment_id (edge_of (built multi_rows) (0, 5) (0, 6)) = Some ''7_0''"
    by (simp_all add: multi_graph edge_of_def get_edge_data_def same_edge_def)
  show ?thesis using 1 2 3 add_parts_concat [of g parts idx] by blast
qed

theorem multilinestring_segment_ids_witness:
  "(1::nat) < length [[(0, 0), (0, 1)], [(0, 5), (0::real, 6::real)]]
   \<and> (0::nat) < length ([[(0, 0), (0, 1)], [(0, 5), (0::real, 6::real)]] ! 1) - 1
   \<and> segment_id (snd (snd (linestring_segments ([[(0, 0), (0, 1)], [(0, 5), (0, 6)]] ! 1) 7 ! 0)))
        = ''7_0''
   \<and> segment_id (snd (snd (linestring_segments ([[(0, 0), (0, 1)], [(0, 5), (0, 6)]] ! 0) 7 ! 0)))
        = ''7_0''"
proof -
  let ?parts = "[[(0, 0), (0, 1)], [(0, 5), (0::real, 6::real)]]"
  have a: "(1::nat) < length ?parts" by simp
  have b: "(0::nat) < length (?parts ! 1) - 1" by simp
  have a0: "(0::nat) < length ?parts" by simp
  have b0: "(0::nat) < length (?parts ! 0) - 1" by simp
  have s: "str_nat 7 @ ''_'' @ str_nat 0 = ''7_0''" by (simp add: digit_char_def)
  from multilinestring_segment_ids [of ?parts 7 empty_graph 0 "[]"] a b
  have 1: "segment_id (snd (snd (linestring_segments (?parts ! 1) 7 ! 0)))
        = str_nat 7 @ ''_'' @ str_nat 0" by blast
  from multilinestring_segment_ids [of ?parts 7 empty_graph 0 "[]"] a0 b0
  have 2: "segment_id (snd (snd (linestring_segments (?parts ! 0) 7 ! 0)))
        = str_nat 7 @ ''_'' @ str_nat 0" by blast
  show ?thesis using a b 1 2 unfolding s by blast
qed

subsection \<open>Requests between unconnected nodes\<close>

lemma meridian_graph:
  "built meridian_rows =
     \<lparr>gdf = Some meridian_rows,
      graph = Some
       \<lparr>nodes = [(0, 0), (0, 1), (0, 5), (0, 6)],
        edges =
          [(((0, 0), (0, 1)),
            \<lparr>weight = haversine_distance 0 0 1 0,
             geometry = ((0, 0), (0, 1)), segment_id = ''0_0'', is_flooded = False\<rparr>),
           (((0, 5), (0, 6)),
            \<lparr>weight = haversine_distance 5 0 6 0,
             geometry = ((0, 5), (0, 6)), segment_id = ''1_0'', is_flooded = False\<rparr>)]\<rparr>,
      flood_zones = []\<rparr>"
  by (simp add: meridian_rows_def build_simps)

lemma meridian_nearest:
  "find_nearest_node (graph_of (built meridian_rows)) 0 0 = Some (0, 0)"
  "find_nearest_node (graph_of (built meridian_rows)) 1 0 = Some (0, 1)"
  "find_nearest_node (graph_of (built meridian_rows)) 6 0 = Some (0, 6)"
  unfolding meridian_graph
  by (simp_all add: graph_of_def find_nearest_node_def haversine_meridian)

lemma meridian_search_fails:
  "path_search (graph_of (built meridian_rows)) (0, 0) (0, 6) heuristic = Inl NetworkXNoPath"
  unfolding meridian_graph
  by (simp add: graph_of_def path_search_def neighbors_def eval_nat_numeral)

lemma meridian_unreachable: "\<not> has_path (graph_of (built meridian_rows)) (0, 0) (0, 6)"
proof
  let ?g = "graph_of (built meridian_rows)"
  let ?R = "{(u, v). get_edge_data ?g u v \<noteq> None}"
  assume "has_path ?g (0, 0) (0, 6)"
  then have r: "((0, 0), (0, 6)) \<in> ?R\<^sup>*" by (simp add: has_path_def)
  have "\<And>u v. (u, v) \<in> ?R\<^sup>* \<Longrightarrow> u \<in> {(0, 0), (0, 1)} \<Longrightarrow> v \<in> {(0, 0), (0, 1)}"
  proof -
    fix u v :: vertex
    assume "(u, v) \<in> ?R\<^sup>*" and "u \<in> {(0, 0), (0, 1)}"
    then show "v \<in> {(0, 0), (0, 1)}"
    proof (induction rule: rtrancl_induct)
      case base
      then show ?case .
    next
      case (step y z)
      from step.hyps(2) step.IH [OF step.prems] show ?case
        unfolding meridian_graph
        by (auto simp: graph_of_def get_edge_data_def same_edge_def split: if_splits)
    qed
  qed
  from this [OF r] show False by simp
qed

lemma meridian_no_route:
  "find_route path_search (built meridian_rows) 0 0 6 0 = Failure ''error'' no_route_message"
  using meridian_nearest meridian_search_fails
  by (simp add: find_route_def graph_of_def meridian_graph)

text \<open>
  C4. When the two coordinates resolve to nodes that no chain of edges
  joins, and the search raises \<^verbatim>\<open>NetworkXNoPath\<close> for such nodes,
  \<^verbatim>\<open>find_route\<close> returns the dictionary whose only entry is the metadata with status
  \<^verbatim>\<open>error\<close> and the message: it has no coordinates and no distance.
\<close>

theorem find_route_no_path:
  assumes "graph p = Some g"
    and "find_nearest_node g start_lat start_lon = Some s"
    and "find_nearest_node g end_lat end_lon = Some t"
    and "\<not> has_path g s t"
    and "\<not> has_path g s t \<longrightarrow> astar_path g s t heuristic = Inl NetworkXNoPath"
  shows "find_route astar_path p start_lat start_lon end_lat end_lon
           = Failure ''error'' no_route_message"
  using assms by (simp add: find_route_def)

theorem find_route_no_path_witness:
  "graph (built meridian_rows) = Some (graph_of (built meridian_rows))
   \<and> find_nearest_node (graph_of (built meridian_rows)) 0 0 = Some (0, 0)
   \<and> find_nearest_node (graph_of (built meridian_rows)) 6 0 = Some (0, 6)
   \<and> \<not> has_path (graph_of (built meridian_rows)) (0, 0) (0, 6)
   \<and> path_search (graph_of (built meridian_rows)) (0, 0) (0, 6) heuristic = Inl NetworkXNoPath
   \<and> find_route path_search (built meridian_rows) 0 0 6 0 = Failure ''error'' no_route_message"
proof -
  have g: "graph (built meridian_rows) = Some (graph_of (built meridian_rows))"
    by (simp add: meridian_graph graph_of_def)
  from find_route_no_path [OF g meridian_nearest(1) meridian_nearest(3) meridian_unreachable]
    meridian_search_fails
  have "find_route path_search (built meridian_rows) 0 0 6 0 = Failure ''error'' no_route_message"
    by blast
  then show ?thesis
    using g meridian_nearest meridian_unreachable meridian_search_fails by blast
qed

text \<open>Between the two separate roads the status of the result is \<^verbatim>\<open>error\<close>, not \<^verbatim>\<open>no_path\<close>.\<close>

theorem find_route_no_path_counterexample:
  "find_route path_search (built meridian_rows) 0 0 6 0 = Failure ''error'' no_route_message
   \<and> result_status (find_route path_search (built meridian_rows) 0 0 6 0) \<noteq> Some ''no_path''"
  by (simp add: meridian_no_route)


subsection \<open>The metrics of a route\<close>

lemma path_length_loop_sum:
  "path_length_loop g total' path
     = total' + sum_list (map effective_weight (traversed g path))"
  by (induction g total' path rule: path_length_loop.induct)
     (auto simp: effective_weight_def split: option.splits)

lemma flooded_loop_count:
  "flooded_loop g count path = count + length (filter is_flooded (traversed g path))"
  by (induction g count path rule: flooded_loop.induct) (auto split: option.splits)

lemma get_edge_data_in_edges:
  "get_edge_data g a b = Some d \<Longrightarrow> d \<in> snd ` set (edges g)"
  by (auto simp: get_edge_data_def find_Some_iff) (metis nth_mem snd_conv image_eqI)

lemma traversed_in_edges: "d \<in> set (traversed g path) \<Longrightarrow> d \<in> snd ` set (edges g)"
  by (induction g path rule: traversed.induct)
     (auto split: option.splits dest: get_edge_data_in_edges)

lemma consistent_effective_weight:
  "consistent_edge d \<Longrightarrow> effective_weight d = base_distance d"
  by (simp add: consistent_edge_def effective_weight_def)

lemma consistent_path_sum:
  assumes "weights_consistent g"
  shows "sum_list (map effective_weight (traversed g path))
       = sum_list (map base_distance (traversed g path))"
proof -
  have "\<And>d. d \<in> set (traversed g path) \<Longrightarrow> effective_weight d = base_distance d"
    using assms traversed_in_edges [of _ g path]
    by (auto simp: weights_consistent_def list_all_iff intro!: consistent_effective_weight)
  then show ?thesis by (metis (mono_tags, lifting) map_eq_conv)
qed

text \<open>
  C2. For every successful route result, the reported distance is, rounded
  to two decimals, the sum over the traversed edges of the edge's weight, divided by
  100 when the edge is flagged (the code keeps no base distance apart from the
  weight); the reported hazard count is the number of traversed edges that are flagged.
  On a graph where every edge satisfies the weighting invariant, the reported distance
  is the sum of the base distances of the traversed edges, rounded to two decimals.
\<close>

theorem route_metrics:
  assumes "graph p = Some g"
    and "find_route astar_path p start_lat start_lon end_lat end_lon = Route r"
  shows "distance_meters r
           = round2 (sum_list (map effective_weight (traversed g (coordinates r))))
       \<and> flooded_segments r = hazard_count g (coordinates r)
       \<and> (weights_consistent g \<longrightarrow>
            distance_meters r = round2 (true_distance g (coordinates r)))"
proof -
  from assms obtain path where
    r: "r = \<lparr>coordinates = path,
             distance_meters = round2 (calculate_path_length g path),
             nodes_count = length path,
             flooded_segments = count_flooded_segments g path,
             meta_start = (start_lat, start_lon),
             meta_end = (end_lat, end_lon),
             meta_distance_meters = round2 (calculate_path_length g path),
             status = ''success''\<rparr>"
    by (auto simp: find_route_def Let_def split: option.splits sum.splits nx_error.splits)
  have 1: "distance_meters r
      = round2 (sum_list (map effective_weight (traversed g (coordinates r))))"
    by (simp add: r calculate_path_length_def path_length_loop_sum)
  have 2: "flooded_segments r = hazard_count g (coordinates r)"
    by (simp add: r count_flooded_segments_def flooded_loop_count hazard_count_def)
  show ?thesis
    using 1 2 consistent_path_sum [of g "coordinates r"] by (simp add: true_distance_def)
qed

lemma round_half_even_lower: "x - 1 / 2 \<le> of_int (round_half_even x)"
proof -
  have "x - of_int \<lfloor>x\<rfloor> < 1" by linarith
  then show ?thesis by (auto simp: round_half_even_def Let_def)
qed

lemma round2_lower: "x - 1 / 200 \<le> round2 x"
  using round_half_even_lower [of "x * 100"] by (simp add: round2_def field_simps)

lemma round2_small: "0 \<le> x \<Longrightarrow> x < 1 / 200 \<Longrightarrow> round2 x = 0"
proof -
  assume a: "0 \<le> x" "x < 1 / 200"
  then have f: "\<lfloor>x * 100\<rfloor> = 0" by (simp add: floor_eq_iff)
  then show ?thesis using a by (simp add: round2_def round_half_even_def Let_def)
qed

lemma meridian_flooded:
  "overlaid (built meridian_rows) [road_zone] =
     \<lparr>gdf = Some meridian_rows,
      graph = Some
       \<lparr>nodes = [(0, 0), (0, 1), (0, 5), (0, 6)],
        edges =
          [(((0, 0), (0, 1)),
            \<lparr>weight = haversine_distance 0 0 1 0 * 100,
             geometry = ((0, 0), (0, 1)), segment_id = ''0_0'', is_flooded = True\<rparr>),
           (((0, 5), (0, 6)),
            \<lparr>weight = haversine_distance 5 0 6 0,
             geometry = ((0, 5), (0, 6)), segment_id = ''1_0'', is_flooded = False\<rparr>)]\<rparr>,
      flood_zones = [road_zone]\<rparr>"
  unfolding meridian_graph by (simp add: overlay_simps road_zone_def)

lemma meridian_flooded_twice:
  "overlaid (overlaid (built meridian_rows) [road_zone]) [road_zone] =
     \<lparr>gdf = Some meridian_rows,
      graph = Some
       \<lparr>nodes = [(0, 0), (0, 1), (0, 5), (0, 6)],
        edges =
          [(((0, 0), (0, 1)),
            \<lparr>weight = haversine_distance 0 0 1 0 * 100 * 100,
             geometry = ((0, 0), (0, 1)), segment_id = ''0_0'', is_flooded = True\<rparr>),
           (((0, 5), (0, 6)),
            \<lparr>weight = haversine_distance 5 0 6 0,
             geometry = ((0, 5), (0, 6)), segment_id = ''1_0'', is_flooded = False\<rparr>)]\<rparr>,
      flood_zones = [road_zone]\<rparr>"
  unfolding meridian_flooded by (simp add: overlay_simps road_zone_def)

lemma tiny_graph:
  "built tiny_rows =
     \<lparr>gdf = Some tiny_rows,
      graph = Some
       \<lparr>nodes = [(0, 0), (0, 0.00000001)],
        edges =
          [(((0, 0), (0, 0.00000001)),
            \<lparr>weight = haversine_distance 0 0 0.00000001 0,
             geometry = ((0, 0), (0, 0.00000001)), segment_id = ''0_0'',
             is_flooded = False\<rparr>)]\<rparr>,
      flood_zones = []\<rparr>"
  by (simp add: tiny_rows_def build_simps)

lemmas route_simps =
  find_route_def find_nearest_node_def path_search_def neighbors_def
  calculate_path_length_def count_flooded_segments_def get_edge_data_def same_edge_def

lemma meridian_flooded_route:
  "find_route path_search (overlaid (built meridian_rows) [road_zone]) 0 0 1 0 =
     Route \<lparr>coordinates = [(0, 0), (0, 1)],
            distance_meters = round2 (haversine_distance 0 0 1 0),
            nodes_count = 2,
            flooded_segments = 1,
            meta_start = (0, 0),
            meta_end = (1, 0),
            meta_distance_meters = round2 (haversine_distance 0 0 1 0),
            status = ''success''\<rparr>"
  unfolding meridian_flooded
  by (simp add: route_simps haversine_meridian eval_nat_numeral Let_def)

lemma meridian_flooded_twice_route:
  "find_route path_search (overlaid (overlaid (built meridian_rows) [road_zone]) [road_zone]) 0 0 1 0 =
     Route \<lparr>coordinates = [(0, 0), (0, 1)],
            distance_meters = round2 (haversine_distance 0 0 1 0 * 100),
            nodes_count = 2,
            flooded_segments = 1,
            meta_start = (0, 0),
            meta_end = (1, 0),
            meta_distance_meters = round2 (haversine_distance 0 0 1 0 * 100),
            status = ''success''\<rparr>"
  unfolding meridian_flooded_twice
  by (simp add: route_simps haversine_meridian eval_nat_numeral Let_def)

lemma tiny_route:
  "find_route path_search (built tiny_rows) 0 0 0.00000001 0 =
     Route \<lparr>coordinates = [(0, 0), (0, 0.00000001)],
            distance_meters = 0,
            nodes_count = 2,
            flooded_segments = 0,
            meta_start = (0, 0),
            meta_end = (0.00000001, 0),
            meta_distance_meters = 0,
            status = ''success''\<rparr>"
proof -
  have h: "haversine_distance 0 0 0.00000001 0 = 6371000 * (0.00000001 * pi / 180)"
    using haversine_meridian [of "0.00000001" 0 0] by simp
  have "round2 (haversine_distance 0 0 0.00000001 0) = 0"
    unfolding h using pi_less_4 by (intro round2_small) simp_all
  then show ?thesis
    unfolding tiny_graph
    by (simp add: route_simps haversine_meridian eval_nat_numeral Let_def)
qed

lemma tiny_true_distance:
  "true_distance (graph_of (built tiny_rows)) [(0, 0), (0, 0.00000001)]
     = haversine_distance 0 0 0.00000001 0"
  unfolding tiny_graph
  by (simp add: true_distance_def graph_of_def get_edge_data_def same_edge_def base_distance_def)

lemma twice_true_distance:
  "true_distance (graph_of (overlaid (overlaid (built meridian_rows) [road_zone]) [road_zone]))
       [(0, 0), (0, 1)]
     = haversine_distance 0 0 1 0"
  unfolding meridian_flooded_twice
  by (simp add: true_distance_def graph_of_def get_edge_data_def same_edge_def base_distance_def)

text \<open>
  Two routes whose reported distance is not the sum of the base distances: along a
  road of about a millimetre the report is rounded to 0; along a road overlaid twice
  with the same zone the report is the rounding of 100 times the base distance.
\<close>

theorem route_metrics_counterexample:
  "find_route path_search (built tiny_rows) 0 0 0.00000001 0 =
     Route \<lparr>coordinates = [(0, 0), (0, 0.00000001)],
            distance_meters = 0,
            nodes_count = 2,
            flooded_segments = 0,
            meta_start = (0, 0),
            meta_end = (0.00000001, 0),
            meta_distance_meters = 0,
            status = ''success''\<rparr>
   \<and> true_distance (graph_of (built tiny_rows)) [(0, 0), (0, 0.00000001)] \<noteq> 0
   \<and> find_route path_search (overlaid (overlaid (built meridian_rows) [road_zone]) [road_zone])
        0 0 1 0 =
     Route \<lparr>coordinates = [(0, 0), (0, 1)],
            distance_meters = round2 (haversine_distance 0 0 1 0 * 100),
            nodes_count = 2,
            flooded_segments = 1,
            meta_start = (0, 0),
            meta_end = (1, 0),
            meta_distance_meters = round2 (haversine_distance 0 0 1 0 * 100),
            status = ''success''\<rparr>
   \<and> true_distance (graph_of (overlaid (overlaid (built meridian_rows) [road_zone]) [road_zone]))
        [(0, 0), (0, 1)]
      \<noteq> round2 (haversine_distance 0 0 1 0 * 100)"
proof -
  have "haversine_distance 0 0 0.00000001 0 = 6371000 * (0.00000001 * pi / 180)"
    using haversine_meridian [of "0.00000001" 0 0] by simp
  also have "0 < \<dots>" by simp
  finally have t: "haversine_distance 0 0 0.00000001 0 \<noteq> 0" by simp
  have h: "haversine_distance 0 0 1 0 = 6371000 * (pi / 180)"
    using haversine_meridian [of 1 0 0] by simp
  have "haversine_distance 0 0 1 0 < haversine_distance 0 0 1 0 * 100 - 1 / 200"
    unfolding h using pi_ge_two by simp
  with round2_lower [of "haversine_distance 0 0 1 0 * 100"]
  have w: "haversine_distance 0 0 1 0 \<noteq> round2 (haversine_distance 0 0 1 0 * 100)"
    by linarith
  show ?thesis
    using t w by (simp only: tiny_route tiny_true_distance meridian_flooded_twice_route
        twice_true_distance simp_thms)
qed

theorem route_metrics_witness:
  "graph (overlaid (built meridian_rows) [road_zone])
     = Some (graph_of (overlaid (built meridian_rows) [road_zone]))
   \<and> weights_consistent (graph_of (overlaid (built meridian_rows) [road_zone]))
   \<and> find_route path_search (overlaid (built meridian_rows) [road_zone]) 0 0 1 0 =
     Route \<lparr>coordinates = [(0, 0), (0, 1)],
            distance_meters = round2 (haversine_distance 0 0 1 0),
            nodes_count = 2,
            flooded_segments = 1,
            meta_start = (0, 0),
            meta_end = (1, 0),
            meta_distance_meters = round2 (haversine_distance 0 0 1 0),
            status = ''success''\<rparr>
   \<and> round2 (haversine_distance 0 0 1 0)
       = round2 (true_distance (graph_of (overlaid (built meridian_rows) [road_zone]))
           [(0, 0), (0, 1)])
   \<and> hazard_count (graph_of (overlaid (built meridian_rows) [road_zone])) [(0, 0), (0, 1)] = 1"
proof -
  let ?p = "overlaid (built meridian_rows) [road_zone]"
  have g: "graph ?p = Some (graph_of ?p)"
    by (simp add: meridian_flooded graph_of_def)
  have c: "weights_consistent (graph_of ?p)"
    unfolding meridian_flooded
    by (simp add: graph_of_def weights_consistent_def consistent_edge_def base_distance_def)
  from route_metrics [OF g meridian_flooded_route] c
  show ?thesis using g meridian_flooded_route by simp
qed

end
